theory Spec2Isabelle
  imports Main "HOL-Library.Word"
begin

unbundle bit_operations_syntax

section \<open>Memory, external callables and events\<close>

text \<open>
  The interpreter of \<^verbatim>\<open>BytecodeLayouts.cpp\<close> works on raw memory through pointers. The
  model is for an LP64, little-endian target: pointers, \<^verbatim>\<open>size_t\<close> and \<^verbatim>\<open>uintptr_t\<close> are
  64-bit words whose arithmetic wraps, and memory is one flat array of bytes that holds
  the layout strings as well as the values. Pointer authentication
  (\<^verbatim>\<open>SWIFT_PTRAUTH\<close>) is not modelled: a signed function pointer calls the same function.
\<close>

type_synonym addr = "64 word"
type_synonym byte = "8 word"
type_synonym heap = "addr \<Rightarrow> byte"

text \<open>
  The functions the file calls and does not define: the release and retain entry points of
  the runtime, the value witnesses of a metadata record (\<^verbatim>\<open>type->vw_destroy\<close> and its
  siblings, tagged with the metadata pointer they are called on) and the metadata accessor
  behind a resilient entry (tagged with the address of the accessor).
  \<open>Block_release\<close> and \<open>Block_copy\<close> stand for \<^verbatim>\<open>_Block_release\<close> and
  \<^verbatim>\<open>_Block_copy\<close>.
\<close>

datatype extfn =
    swift_errorRelease
  | swift_release
  | swift_unownedRelease
  | swift_weakDestroy
  | swift_unknownObjectRelease
  | swift_unknownObjectUnownedDestroy
  | swift_unknownObjectWeakDestroy
  | swift_bridgeObjectRelease
  | Block_release
  | swift_errorRetain
  | swift_retain
  | swift_unownedRetain
  | swift_weakCopyInit
  | swift_unknownObjectRetain
  | swift_unknownObjectUnownedCopyInit
  | swift_unknownObjectWeakCopyInit
  | swift_bridgeObjectRetain
  | Block_copy
  | objc_retain
  | swift_unknownObjectWeakTakeInit
  | vw_destroy addr
  | vw_initializeWithCopy addr
  | vw_initializeWithTake addr
  | vw_initializeBufferWithCopyOfBuffer addr
  | MetadataAccessor addr

text \<open>
  What a run does to the world outside is a list of events, in order: a call of an
  external function with its arguments, or a write of bytes to memory by the file's own
  code (\<^verbatim>\<open>memcpy\<close>, \<^verbatim>\<open>writeBytes\<close>, a store through a pointer).
\<close>

datatype event = Call extfn "addr list" | Wr addr "byte list"

text \<open>
  The environment gives what the code reads from a metadata record and what an external
  call does: its effect on memory and the pointer it returns. \<open>objc_interop\<close> is the
  compile-time switch \<^verbatim>\<open>SWIFT_OBJC_INTEROP\<close>.
\<close>

record env =
  objc_interop :: bool
  md_layoutString :: "addr \<Rightarrow> addr"
  md_size :: "addr \<Rightarrow> 64 word"
  md_bitwiseTakable :: "addr \<Rightarrow> bool"
  md_valueInline :: "addr \<Rightarrow> bool"
  md_genericArgs :: "addr \<Rightarrow> addr"
  call_effect :: "extfn \<Rightarrow> addr list \<Rightarrow> heap \<Rightarrow> heap"
  call_result :: "extfn \<Rightarrow> addr list \<Rightarrow> heap \<Rightarrow> addr"

record state =
  heap :: heap
  trace :: "event list"

text \<open>
  Ways a run ends other than by returning: \<^verbatim>\<open>swift_unreachable\<close>, a call through a null
  function pointer of a table, a table index past the last row, and a table function
  called with the wrong number of arguments (the tables of the source never do that).
\<close>

datatype fatal = Unreachable | NullCallable | TableOutOfRange | BadCall

datatype 'a outcome = Returns 'a | Fatal fatal | OutOfFuel

subsection \<open>Reading and writing memory\<close>

definition read_bytes :: "heap \<Rightarrow> addr \<Rightarrow> nat \<Rightarrow> byte list" where
  "read_bytes h p n = map (\<lambda>k. h (p + of_nat k)) [0..<n]"

definition write_bytes :: "heap \<Rightarrow> addr \<Rightarrow> byte list \<Rightarrow> heap" where
  "write_bytes h p bs = (\<lambda>x. if unat (x - p) < length bs then bs ! unat (x - p) else h x)"

definition load16 :: "heap \<Rightarrow> addr \<Rightarrow> 64 word" where
  "load16 h p = ucast (h p) OR push_bit 8 (ucast (h (p + 1)))"

definition load32 :: "heap \<Rightarrow> addr \<Rightarrow> 64 word" where
  "load32 h p = ucast (h p) OR push_bit 8 (ucast (h (p + 1)))
     OR push_bit 16 (ucast (h (p + 2))) OR push_bit 24 (ucast (h (p + 3)))"

definition load64 :: "heap \<Rightarrow> addr \<Rightarrow> 64 word" where
  "load64 h p = ucast (h p) OR push_bit 8 (ucast (h (p + 1)))
     OR push_bit 16 (ucast (h (p + 2))) OR push_bit 24 (ucast (h (p + 3)))
     OR push_bit 32 (ucast (h (p + 4))) OR push_bit 40 (ucast (h (p + 5)))
     OR push_bit 48 (ucast (h (p + 6))) OR push_bit 56 (ucast (h (p + 7)))"

definition bytes64 :: "64 word \<Rightarrow> byte list" where
  "bytes64 v = map (\<lambda>k. ucast (drop_bit (8 * k) v)) [0..<8]"

text \<open>\<^verbatim>\<open>readBytes<T>(typeLayout, i)\<close> for the 8-byte types: the value and the new offset.\<close>

definition readBytes :: "heap \<Rightarrow> addr \<Rightarrow> 64 word \<Rightarrow> 64 word \<times> 64 word" where
  "readBytes h typeLayout i = (load64 h (typeLayout + i), i + 8)"

subsection \<open>Events change the state\<close>

fun apply_event :: "env \<Rightarrow> event \<Rightarrow> heap \<Rightarrow> heap" where
  "apply_event E (Call f args) h = call_effect E f args h"
| "apply_event E (Wr p bs) h = write_bytes h p bs"

definition emit :: "env \<Rightarrow> event \<Rightarrow> state \<Rightarrow> state" where
  "emit E e st = \<lparr>heap = apply_event E e (heap st), trace = trace st @ [e]\<rparr>"

text \<open>\<^verbatim>\<open>writeBytes(typeLayout, i, value)\<close> for an 8-byte value: the new state and offset.\<close>

definition writeBytes :: "env \<Rightarrow> addr \<Rightarrow> 64 word \<Rightarrow> 64 word \<Rightarrow> state \<Rightarrow> state \<times> 64 word" where
  "writeBytes E typeLayout i v st = (emit E (Wr (typeLayout + i) (bytes64 v)) st, i + 8)"

text \<open>
  \<^verbatim>\<open>memcpy(dest, src, size)\<close>: the source bytes are read, then written. (Overlapping
  ranges are undefined in C; the model reads all the bytes first.)
\<close>

definition memcpy :: "env \<Rightarrow> addr \<Rightarrow> addr \<Rightarrow> 64 word \<Rightarrow> state \<Rightarrow> state" where
  "memcpy E dest src sz st = emit E (Wr dest (read_bytes (heap st) src (unat sz))) st"

section \<open>Constants of the layout string format\<close>

definition layoutStringHeaderSize :: "64 word" where
  "layoutStringHeaderSize = 8 + 8"

text \<open>
  Modelled from the spec: the enumeration \<^verbatim>\<open>RefCountingKind\<close> is declared in
  \<^verbatim>\<open>BytecodeLayouts.h\<close>, which is not among the sources. The spec names the kinds; the
  ordinals are the row numbers of \<open>destroyTable\<close> and \<open>retainTable\<close> (0 to 14), and
  the two kinds past the tables follow \<open>Existential\<close>.
\<close>

definition kind_End :: "8 word" where "kind_End = 0x00"
definition kind_Error :: "8 word" where "kind_Error = 0x01"
definition kind_NativeStrong :: "8 word" where "kind_NativeStrong = 0x02"
definition kind_NativeUnowned :: "8 word" where "kind_NativeUnowned = 0x03"
definition kind_NativeWeak :: "8 word" where "kind_NativeWeak = 0x04"
definition kind_Unknown :: "8 word" where "kind_Unknown = 0x05"
definition kind_UnknownUnowned :: "8 word" where "kind_UnknownUnowned = 0x06"
definition kind_UnknownWeak :: "8 word" where "kind_UnknownWeak = 0x07"
definition kind_Bridge :: "8 word" where "kind_Bridge = 0x08"
definition kind_Block :: "8 word" where "kind_Block = 0x09"
definition kind_ObjC :: "8 word" where "kind_ObjC = 0x0a"
definition kind_Custom :: "8 word" where "kind_Custom = 0x0b"
definition kind_Metatype :: "8 word" where "kind_Metatype = 0x0c"
definition kind_Generic :: "8 word" where "kind_Generic = 0x0d"
definition kind_Existential :: "8 word" where "kind_Existential = 0x0e"
definition kind_Resilient :: "8 word" where "kind_Resilient = 0x0f"
definition kind_SinglePayloadEnumSimple :: "8 word" where "kind_SinglePayloadEnumSimple = 0x10"

named_theorems kind_defs

declare kind_End_def [kind_defs] kind_Error_def [kind_defs] kind_NativeStrong_def [kind_defs]
  kind_NativeUnowned_def [kind_defs] kind_NativeWeak_def [kind_defs] kind_Unknown_def [kind_defs]
  kind_UnknownUnowned_def [kind_defs] kind_UnknownWeak_def [kind_defs] kind_Bridge_def [kind_defs]
  kind_Block_def [kind_defs] kind_ObjC_def [kind_defs] kind_Custom_def [kind_defs]
  kind_Metatype_def [kind_defs] kind_Generic_def [kind_defs] kind_Existential_def [kind_defs]
  kind_Resilient_def [kind_defs] kind_SinglePayloadEnumSimple_def [kind_defs]

text \<open>
  Modelled from the spec: \<^verbatim>\<open>NumWords_ValueBuffer\<close> is declared in
  \<^verbatim>\<open>swift/ABI/MetadataValues.h\<close>, which is not among the sources; an existential
  container stores its value buffer of three words first and the metadata pointer after it.
\<close>

definition NumWords_ValueBuffer :: "64 word" where
  "NumWords_ValueBuffer = 3"

text \<open>The first word of an entry: the tag in the top byte, the skip in the low 56 bits.\<close>

definition entry_tag :: "64 word \<Rightarrow> 8 word" where
  "entry_tag w = ucast (drop_bit 56 w)"

definition entry_skip :: "64 word \<Rightarrow> 64 word" where
  "entry_skip w = w AND NOT (push_bit 56 0xff)"

section \<open>Helpers of the source\<close>

definition getExistentialTypeMetadata :: "heap \<Rightarrow> addr \<Rightarrow> addr" where
  "getExistentialTypeMetadata h object = load64 h (object + 8 * NumWords_ValueBuffer)"

text \<open>
  \<^verbatim>\<open>getResilientTypeMetadata\<close>: the 8 bytes at the offset are read and cut to a signed
  32-bit offset relative to the address of those bytes; the function there is called on
  the generic arguments of the metadata and returns the metadata of the field.
\<close>

definition getResilientTypeMetadata ::
  "env \<Rightarrow> addr \<Rightarrow> addr \<Rightarrow> 64 word \<Rightarrow> state \<Rightarrow> addr \<times> 64 word \<times> state" where
  "getResilientTypeMetadata E metadata layoutStr offset st =
     (let absolute = layoutStr + offset;
          (raw, offset') = readBytes (heap st) layoutStr offset;
          relativeOffset = (scast (ucast raw :: 32 word) :: 64 word);
          fn = absolute + relativeOffset;
          args = [md_genericArgs E metadata];
          r = call_result E (MetadataAccessor fn) args (heap st)
      in (r, offset', emit E (Call (MetadataAccessor fn) args) st))"

definition skipDestroy :: "addr \<Rightarrow> state \<Rightarrow> state" where
  "skipDestroy ignore st = st"

definition existential_destroy :: "env \<Rightarrow> addr \<Rightarrow> state \<Rightarrow> state" where
  "existential_destroy E object st =
     (let metadata = getExistentialTypeMetadata (heap st) object
      in if md_valueInline E metadata
         then emit E (Call (vw_destroy metadata) [object]) st
         else emit E (Call swift_release [load64 (heap st) object]) st)"

definition skipRetain :: "addr \<Rightarrow> state \<Rightarrow> state" where
  "skipRetain ignore st = st"

definition Block_copyForwarder :: "env \<Rightarrow> addr \<Rightarrow> addr \<Rightarrow> state \<Rightarrow> state" where
  "Block_copyForwarder E dest src st =
     (let args = [load64 (heap st) src];
          r = call_result E Block_copy args (heap st);
          st1 = emit E (Call Block_copy args) st
      in emit E (Wr dest (bytes64 r)) st1)"

definition existential_initializeWithCopy :: "env \<Rightarrow> addr \<Rightarrow> addr \<Rightarrow> state \<Rightarrow> state" where
  "existential_initializeWithCopy E dest src st =
     (let metadata = getExistentialTypeMetadata (heap st) src
      in emit E (Call (vw_initializeBufferWithCopyOfBuffer metadata) [dest, src]) st)"

text \<open>
  \<^verbatim>\<open>readTagBytes\<close>: 1, 2, 4 or 8 bytes at the address, zero-extended; any other count
  reaches \<^verbatim>\<open>swift_unreachable\<close>.
\<close>

definition readTagBytes :: "heap \<Rightarrow> addr \<Rightarrow> nat \<Rightarrow> fatal + 64 word" where
  "readTagBytes h a byteCount =
     (if byteCount = 1 then Inr (ucast (h a))
      else if byteCount = 2 then Inr (load16 h a)
      else if byteCount = 4 then Inr (load32 h a)
      else if byteCount = 8 then Inr (load64 h a)
      else Inl Unreachable)"


section \<open>The enum payload classifier\<close>

definition extraTagBytesPattern :: "64 word \<Rightarrow> 8 word" where
  "extraTagBytesPattern byteCountsAndOffset = ucast (drop_bit 62 byteCountsAndOffset)"

definition xiTagBytesPattern :: "64 word \<Rightarrow> 8 word" where
  "xiTagBytesPattern byteCountsAndOffset = ucast (drop_bit 59 byteCountsAndOffset) AND 0x7"

definition xiTagBytesOffset :: "64 word \<Rightarrow> 64 word" where
  "xiTagBytesOffset byteCountsAndOffset = byteCountsAndOffset AND 0xFFFFFFFF"

text \<open>
  The code after the label \<^verbatim>\<open>noPayload\<close>: the pair \<open>refCountBytes\<close>, \<open>skip\<close> is read,
  the cursor jumps over the entries of the payload and the address offset over the enum.
\<close>

definition noPayload :: "heap \<Rightarrow> addr \<Rightarrow> 64 word \<Rightarrow> 64 word \<Rightarrow> 64 word \<times> 64 word" where
  "noPayload h typeLayout offset addrOffset =
     (let (refCountBytes, offset1) = readBytes h typeLayout offset;
          (skip, offset2) = readBytes h typeLayout offset1
      in (offset2 + refCountBytes, addrOffset + skip))"

text \<open>
  \<^verbatim>\<open>handleSinglePayloadEnumSimple\<close> returns nothing and moves the two cursors. The model
  returns the cursors (offset, then address offset) and, first, which way the function
  was left: \<open>True\<close> through the early \<^verbatim>\<open>return\<close> (the payload is there and its entries
  come next), \<open>False\<close> through the block at \<^verbatim>\<open>noPayload\<close>. \<open>enumExtraInhabitants\<close> is the
  second \<^verbatim>\<open>if\<close> statement of the function with all that follows it.
\<close>

definition enumExtraInhabitants ::
  "heap \<Rightarrow> addr \<Rightarrow> 64 word \<Rightarrow> addr \<Rightarrow> 64 word \<Rightarrow> 64 word \<Rightarrow> fatal + (bool \<times> 64 word \<times> 64 word)" where
  "enumExtraInhabitants h typeLayout offset a addrOffset byteCountsAndOffset =
     (if xiTagBytesPattern byteCountsAndOffset \<noteq> 0 then
        (let (zeroTagValue, offset1) = readBytes h typeLayout offset;
             (xiTagValues, offset2) = readBytes h typeLayout offset1;
             xiTagBytes = (2::nat) ^ (unat (xiTagBytesPattern byteCountsAndOffset) - 1)
         in case readTagBytes h (a + addrOffset + xiTagBytesOffset byteCountsAndOffset) xiTagBytes of
              Inl f \<Rightarrow> Inl f
            | Inr t \<Rightarrow>
                (let tagBytes = t - zeroTagValue
                 in if tagBytes \<ge> xiTagValues then Inr (True, offset2 + (8 * 2), addrOffset)
                    else Inr (False, noPayload h typeLayout offset2 addrOffset)))
      else Inr (False, noPayload h typeLayout (offset + (8 + 8)) addrOffset))"

definition handleSinglePayloadEnumSimple ::
  "heap \<Rightarrow> addr \<Rightarrow> 64 word \<Rightarrow> addr \<Rightarrow> 64 word \<Rightarrow> fatal + (bool \<times> 64 word \<times> 64 word)" where
  "handleSinglePayloadEnumSimple h typeLayout offset a addrOffset =
     (let (byteCountsAndOffset, offset1) = readBytes h typeLayout offset
      in if extraTagBytesPattern byteCountsAndOffset \<noteq> 0 then
           (let extraTagBytes = (2::nat) ^ (unat (extraTagBytesPattern byteCountsAndOffset) - 1);
                (payloadSize, offset2) = readBytes h typeLayout offset1
            in case readTagBytes h (a + addrOffset + payloadSize) extraTagBytes of
                 Inl f \<Rightarrow> Inl f
               | Inr tagBytes \<Rightarrow>
                   if tagBytes \<noteq> 0
                   then Inr (False, noPayload h typeLayout (offset2 + (8 + 8)) addrOffset)
                   else enumExtraInhabitants h typeLayout offset2 a addrOffset byteCountsAndOffset)
         else enumExtraInhabitants h typeLayout (offset1 + 8) a addrOffset byteCountsAndOffset)"

section \<open>The dispatch tables\<close>

text \<open>
  A row of a table holds a function pointer, possibly null, and a flag. The pointer is to
  an external function or to one of the five functions the file defines.
\<close>

datatype callable =
    Native extfn
  | Fn_skipDestroy
  | Fn_existential_destroy
  | Fn_skipRetain
  | Fn_Block_copyForwarder
  | Fn_existential_initializeWithCopy

fun invoke :: "env \<Rightarrow> callable \<Rightarrow> addr list \<Rightarrow> state \<Rightarrow> fatal option \<times> state" where
  "invoke E (Native f) args st = (None, emit E (Call f args) st)"
| "invoke E Fn_skipDestroy [a] st = (None, skipDestroy a st)"
| "invoke E Fn_existential_destroy [a] st = (None, existential_destroy E a st)"
| "invoke E Fn_skipRetain [a] st = (None, skipRetain a st)"
| "invoke E Fn_Block_copyForwarder [d, s] st = (None, Block_copyForwarder E d s st)"
| "invoke E Fn_existential_initializeWithCopy [d, s] st =
     (None, existential_initializeWithCopy E d s st)"
| "invoke E c args st = (Some BadCall, st)"

text \<open>The flag of a row of \<open>destroyTable\<close> is \<^verbatim>\<open>isIndirect\<close>.\<close>

definition destroyTable :: "bool \<Rightarrow> (callable option \<times> bool) list" where
  "destroyTable objc =
     [(Some Fn_skipDestroy, False),
      (Some (Native swift_errorRelease), True),
      (Some (Native swift_release), True),
      (Some (Native swift_unownedRelease), True),
      (Some (Native swift_weakDestroy), False),
      (Some (Native swift_unknownObjectRelease), True),
      (Some (Native swift_unknownObjectUnownedDestroy), False),
      (Some (Native swift_unknownObjectWeakDestroy), False),
      (Some (Native swift_bridgeObjectRelease), True)]
     @ (if objc
        then [(Some (Native Block_release), True),
              (Some (Native swift_unknownObjectRelease), True)]
        else [(None, True),
              (None, True)])
     @ [(None, True),
        (None, True),
        (None, True),
        (Some Fn_existential_destroy, False)]"

text \<open>The flag of a row of \<open>retainTable\<close> is \<^verbatim>\<open>isSingle\<close>.\<close>

definition retainTable :: "bool \<Rightarrow> (callable option \<times> bool) list" where
  "retainTable objc =
     [(Some Fn_skipRetain, True),
      (Some (Native swift_errorRetain), True),
      (Some (Native swift_retain), True),
      (Some (Native swift_unownedRetain), True),
      (Some (Native swift_weakCopyInit), False),
      (Some (Native swift_unknownObjectRetain), True),
      (Some (Native swift_unknownObjectUnownedCopyInit), False),
      (Some (Native swift_unknownObjectWeakCopyInit), False),
      (Some (Native swift_bridgeObjectRetain), True)]
     @ (if objc
        then [(Some Fn_Block_copyForwarder, False),
              (Some (Native objc_retain), True)]
        else [(None, True),
              (None, True)])
     @ [(None, True),
        (None, True),
        (None, True),
        (Some Fn_existential_initializeWithCopy, False)]"

text \<open>
  \<^verbatim>\<open>table[static_cast<uint8_t>(tag)]\<close> followed by the call of the row's function on the
  arguments \<open>args flag\<close>: an index past the table and a null pointer are fatal.
\<close>

definition dispatch ::
  "env \<Rightarrow> (callable option \<times> bool) list \<Rightarrow> 8 word \<Rightarrow> (bool \<Rightarrow> addr list) \<Rightarrow> state
     \<Rightarrow> fatal option \<times> state" where
  "dispatch E table tag args st =
     (if unat tag < length table then
        (case table ! unat tag of
           (None, flag) \<Rightarrow> (Some NullCallable, st)
         | (Some fn, flag) \<Rightarrow> invoke E fn (args flag) st)
      else (Some TableOutOfRange, st))"

section \<open>The handlers and the traversal\<close>

text \<open>
  The template parameter \<^verbatim>\<open>Handler\<close> with the parameter pack it is called on:
  \<open>DestroyHandler addr\<close> or \<open>CopyHandler dest src\<close>.
\<close>

datatype handler = DestroyHandler addr | CopyHandler addr addr

fun handleMetatype :: "env \<Rightarrow> handler \<Rightarrow> addr \<Rightarrow> 64 word \<Rightarrow> state \<Rightarrow> state" where
  "handleMetatype E (DestroyHandler a) ty addrOffset st =
     emit E (Call (vw_destroy ty) [a + addrOffset]) st"
| "handleMetatype E (CopyHandler dest src) ty addrOffset st =
     emit E (Call (vw_initializeWithCopy ty) [dest + addrOffset, src + addrOffset]) st"

fun handler_handleSinglePayloadEnumSimple ::
  "handler \<Rightarrow> heap \<Rightarrow> addr \<Rightarrow> 64 word \<Rightarrow> 64 word \<Rightarrow> fatal + (bool \<times> 64 word \<times> 64 word)" where
  "handler_handleSinglePayloadEnumSimple (DestroyHandler a) h typeLayout offset addrOffset =
     handleSinglePayloadEnumSimple h typeLayout offset a addrOffset"
| "handler_handleSinglePayloadEnumSimple (CopyHandler dest src) h typeLayout offset addrOffset =
     handleSinglePayloadEnumSimple h typeLayout offset src addrOffset"

fun handleReference :: "env \<Rightarrow> handler \<Rightarrow> 8 word \<Rightarrow> 64 word \<Rightarrow> state \<Rightarrow> fatal option \<times> state" where
  "handleReference E (DestroyHandler a) tag addrOffset st =
     dispatch E (destroyTable (objc_interop E)) tag
       (\<lambda>isIndirect. if isIndirect then [load64 (heap st) (a + addrOffset)]
                      else [a + addrOffset]) st"
| "handleReference E (CopyHandler dest src) tag addrOffset st =
     dispatch E (retainTable (objc_interop E)) tag
       (\<lambda>isSingle. if isSingle then [load64 (heap st) (dest + addrOffset)]
                    else [dest + addrOffset, src + addrOffset]) st"

text \<open>
  One call of \<^verbatim>\<open>handleNextRefCount\<close>: what it returns (or how it dies), the two cursors
  and the state.
\<close>

definition handleNextRefCount ::
  "env \<Rightarrow> handler \<Rightarrow> addr \<Rightarrow> addr \<Rightarrow> 64 word \<Rightarrow> 64 word \<Rightarrow> state
     \<Rightarrow> bool outcome \<times> 64 word \<times> 64 word \<times> state" where
  "handleNextRefCount E H metadata typeLayout offset addrOffset st =
     (let (w, offset1) = readBytes (heap st) typeLayout offset;
          tag = entry_tag w;
          skip = entry_skip w;
          addrOffset1 = addrOffset + skip
      in if tag = kind_End then (Returns False, offset1, addrOffset1, st)
         else if tag = kind_Metatype then
           (let (ty, offset2) = readBytes (heap st) typeLayout offset1
            in (Returns True, offset2, addrOffset1, handleMetatype E H ty addrOffset1 st))
         else if tag = kind_Resilient then
           (let (ty, offset2, st1) = getResilientTypeMetadata E metadata typeLayout offset1 st
            in (Returns True, offset2, addrOffset1, handleMetatype E H ty addrOffset1 st1))
         else if tag = kind_SinglePayloadEnumSimple then
           (case handler_handleSinglePayloadEnumSimple H (heap st) typeLayout offset1 addrOffset1 of
              Inl f \<Rightarrow> (Fatal f, offset1, addrOffset1, st)
            | Inr (p, offset2, addrOffset2) \<Rightarrow> (Returns True, offset2, addrOffset2, st))
         else
           (case handleReference E H tag addrOffset1 st of
              (Some f, st1) \<Rightarrow> (Fatal f, offset1, addrOffset1, st1)
            | (None, st1) \<Rightarrow> (Returns True, offset1, addrOffset1, st1)))"

text \<open>
  A loop \<^verbatim>\<open>while (step(offset, addrOffset)) {}\<close> over the two cursors, with fuel: the
  source's loops end when an entry says so, and on a layout string without such an entry
  they do not end.
\<close>

fun while_loop ::
  "nat \<Rightarrow> (64 word \<Rightarrow> 64 word \<Rightarrow> state \<Rightarrow> bool outcome \<times> 64 word \<times> 64 word \<times> state)
     \<Rightarrow> 64 word \<Rightarrow> 64 word \<Rightarrow> state \<Rightarrow> unit outcome \<times> state" where
  "while_loop 0 step offset addrOffset st = (OutOfFuel, st)"
| "while_loop (Suc n) step offset addrOffset st =
     (case step offset addrOffset st of
        (Returns True, offset', addrOffset', st') \<Rightarrow> while_loop n step offset' addrOffset' st'
      | (Returns False, offset', addrOffset', st') \<Rightarrow> (Returns (), st')
      | (Fatal f, offset', addrOffset', st') \<Rightarrow> (Fatal f, st')
      | (OutOfFuel, offset', addrOffset', st') \<Rightarrow> (OutOfFuel, st'))"

text \<open>The loop \<^verbatim>\<open>for (int i = 0; i < N; i++)\<close> of \<^verbatim>\<open>handleRefCounts\<close>, which ignores what the step returns.\<close>

fun for_loop ::
  "nat \<Rightarrow> (64 word \<Rightarrow> 64 word \<Rightarrow> state \<Rightarrow> bool outcome \<times> 64 word \<times> 64 word \<times> state)
     \<Rightarrow> 64 word \<Rightarrow> 64 word \<Rightarrow> state \<Rightarrow> unit outcome \<times> state" where
  "for_loop 0 step offset addrOffset st = (Returns (), st)"
| "for_loop (Suc n) step offset addrOffset st =
     (case step offset addrOffset st of
        (Returns b, offset', addrOffset', st') \<Rightarrow> for_loop n step offset' addrOffset' st'
      | (Fatal f, offset', addrOffset', st') \<Rightarrow> (Fatal f, st')
      | (OutOfFuel, offset', addrOffset', st') \<Rightarrow> (OutOfFuel, st'))"

definition handleRefCounts ::
  "nat \<Rightarrow> nat \<Rightarrow> env \<Rightarrow> handler \<Rightarrow> addr \<Rightarrow> state \<Rightarrow> unit outcome \<times> state" where
  "handleRefCounts N fuel E H metadata st =
     (let typeLayout = md_layoutString E metadata;
          offset = layoutStringHeaderSize;
          addrOffset = 0
      in if N = 0
         then while_loop fuel (handleNextRefCount E H metadata typeLayout) offset addrOffset st
         else for_loop N (handleNextRefCount E H metadata typeLayout) offset addrOffset st)"

section \<open>The public operations\<close>

definition swift_generic_destroy :: "nat \<Rightarrow> env \<Rightarrow> addr \<Rightarrow> addr \<Rightarrow> state \<Rightarrow> unit outcome \<times> state" where
  "swift_generic_destroy fuel E address metadata st =
     handleRefCounts 0 fuel E (DestroyHandler address) metadata st"

text \<open>An operation that returns \<open>dest\<close> once the traversal has returned.\<close>

fun returning :: "addr \<Rightarrow> unit outcome \<times> state \<Rightarrow> addr outcome \<times> state" where
  "returning dest (Returns u, st) = (Returns dest, st)"
| "returning dest (Fatal f, st) = (Fatal f, st)"
| "returning dest (OutOfFuel, st) = (OutOfFuel, st)"

definition swift_generic_initWithCopy ::
  "nat \<Rightarrow> env \<Rightarrow> addr \<Rightarrow> addr \<Rightarrow> addr \<Rightarrow> state \<Rightarrow> addr outcome \<times> state" where
  "swift_generic_initWithCopy fuel E dest src metadata st =
     (let sz = md_size E metadata;
          st1 = memcpy E dest src sz st
      in returning dest (handleRefCounts 0 fuel E (CopyHandler dest src) metadata st1))"

text \<open>
  One turn of the loop of \<^verbatim>\<open>swift_generic_initWithTake\<close>: \<open>Returns False\<close> is the
  \<^verbatim>\<open>return dest\<close> of the case \<open>End\<close>, \<open>Returns True\<close> a \<^verbatim>\<open>break\<close> out of the switch.
\<close>

definition takeIfNotBitwiseTakable :: "env \<Rightarrow> addr \<Rightarrow> addr \<Rightarrow> addr \<Rightarrow> 64 word \<Rightarrow> state \<Rightarrow> state" where
  "takeIfNotBitwiseTakable E ty dest src addrOffset st =
     (if \<not> md_bitwiseTakable E ty
      then emit E (Call (vw_initializeWithTake ty) [dest + addrOffset, src + addrOffset]) st
      else st)"

definition initWithTake_step ::
  "env \<Rightarrow> addr \<Rightarrow> addr \<Rightarrow> addr \<Rightarrow> addr \<Rightarrow> 64 word \<Rightarrow> 64 word \<Rightarrow> state
     \<Rightarrow> bool outcome \<times> 64 word \<times> 64 word \<times> state" where
  "initWithTake_step E dest src metadata typeLayout offset addrOffset st =
     (let (w, offset1) = readBytes (heap st) typeLayout offset;
          tag = entry_tag w;
          skip = entry_skip w;
          addrOffset1 = addrOffset + skip
      in if tag = kind_UnknownWeak then
           (Returns True, offset1, addrOffset1,
            emit E (Call swift_unknownObjectWeakTakeInit [dest + addrOffset1, src + addrOffset1]) st)
         else if tag = kind_Metatype then
           (let (ty, offset2) = readBytes (heap st) typeLayout offset1
            in (Returns True, offset2, addrOffset1,
                takeIfNotBitwiseTakable E ty dest src addrOffset1 st))
         else if tag = kind_Existential then
           (let ty = getExistentialTypeMetadata (heap st) (src + addrOffset1)
            in (Returns True, offset1, addrOffset1,
                takeIfNotBitwiseTakable E ty dest src addrOffset1 st))
         else if tag = kind_Resilient then
           (let (ty, offset2, st1) = getResilientTypeMetadata E metadata typeLayout offset1 st
            in (Returns True, offset2, addrOffset1,
                takeIfNotBitwiseTakable E ty dest src addrOffset1 st1))
         else if tag = kind_SinglePayloadEnumSimple then
           (case handleSinglePayloadEnumSimple (heap st) typeLayout offset1 src addrOffset1 of
              Inl f \<Rightarrow> (Fatal f, offset1, addrOffset1, st)
            | Inr (p, offset2, addrOffset2) \<Rightarrow> (Returns True, offset2, addrOffset2, st))
         else if tag = kind_End then (Returns False, offset1, addrOffset1, st)
         else (Returns True, offset1, addrOffset1, st))"

definition swift_generic_initWithTake ::
  "nat \<Rightarrow> env \<Rightarrow> addr \<Rightarrow> addr \<Rightarrow> addr \<Rightarrow> state \<Rightarrow> addr outcome \<times> state" where
  "swift_generic_initWithTake fuel E dest src metadata st =
     (let typeLayout = md_layoutString E metadata;
          sz = md_size E metadata;
          st1 = memcpy E dest src sz st
      in if md_bitwiseTakable E metadata then (Returns dest, st1)
         else returning dest
                (while_loop fuel (initWithTake_step E dest src metadata typeLayout)
                   layoutStringHeaderSize 0 st1))"

text \<open>The assignments call the destroy and, when it has returned, the initialisation.\<close>

definition swift_generic_assignWithCopy ::
  "nat \<Rightarrow> env \<Rightarrow> addr \<Rightarrow> addr \<Rightarrow> addr \<Rightarrow> state \<Rightarrow> addr outcome \<times> state" where
  "swift_generic_assignWithCopy fuel E dest src metadata st =
     (case swift_generic_destroy fuel E dest metadata st of
        (Returns u, st1) \<Rightarrow> swift_generic_initWithCopy fuel E dest src metadata st1
      | (Fatal f, st1) \<Rightarrow> (Fatal f, st1)
      | (OutOfFuel, st1) \<Rightarrow> (OutOfFuel, st1))"

definition swift_generic_assignWithTake ::
  "nat \<Rightarrow> env \<Rightarrow> addr \<Rightarrow> addr \<Rightarrow> addr \<Rightarrow> state \<Rightarrow> addr outcome \<times> state" where
  "swift_generic_assignWithTake fuel E dest src metadata st =
     (case swift_generic_destroy fuel E dest metadata st of
        (Returns u, st1) \<Rightarrow> swift_generic_initWithTake fuel E dest src metadata st1
      | (Fatal f, st1) \<Rightarrow> (Fatal f, st1)
      | (OutOfFuel, st1) \<Rightarrow> (OutOfFuel, st1))"

text \<open>
  \<^verbatim>\<open>swift_resolve_resilientAccessors\<close>: the body of the loop, from the offset \<open>i\<close> to the
  next one, and the loop with fuel.
\<close>

definition resolve_step ::
  "env \<Rightarrow> addr \<Rightarrow> 64 word \<Rightarrow> addr \<Rightarrow> addr \<Rightarrow> 64 word \<Rightarrow> state \<Rightarrow> 64 word \<times> state" where
  "resolve_step E layoutStr layoutStrOffset fieldLayoutStr fieldType i st =
     (let currentOffset = i;
          (w, i1) = readBytes (heap st) fieldLayoutStr i;
          tag = entry_tag w;
          sz = entry_skip w
      in if tag = kind_Resilient then
           (let (ty, i2, st1) = getResilientTypeMetadata E fieldType fieldLayoutStr i1 st;
                writeOffset = layoutStrOffset + currentOffset - layoutStringHeaderSize;
                tagAndOffset = push_bit 56 (ucast kind_Metatype) OR sz;
                (st2, writeOffset1) = writeBytes E layoutStr writeOffset tagAndOffset st1;
                (st3, writeOffset2) = writeBytes E layoutStr writeOffset1 ty st2
            in (i2, st3))
         else if tag = kind_Metatype then (i1 + 8, st)
         else if tag = kind_SinglePayloadEnumSimple then (i1 + ((3 * 8) + (4 * 8)), st)
         else (i1, st))"

fun resolve_loop ::
  "nat \<Rightarrow> env \<Rightarrow> addr \<Rightarrow> 64 word \<Rightarrow> addr \<Rightarrow> 64 word \<Rightarrow> addr \<Rightarrow> 64 word \<Rightarrow> state
     \<Rightarrow> unit outcome \<times> state" where
  "resolve_loop 0 E layoutStr layoutStrOffset fieldLayoutStr refCountBytes fieldType i st =
     (OutOfFuel, st)"
| "resolve_loop (Suc n) E layoutStr layoutStrOffset fieldLayoutStr refCountBytes fieldType i st =
     (if i < layoutStringHeaderSize + refCountBytes
      then (case resolve_step E layoutStr layoutStrOffset fieldLayoutStr fieldType i st of
              (i', st') \<Rightarrow>
                resolve_loop n E layoutStr layoutStrOffset fieldLayoutStr refCountBytes fieldType i' st')
      else (Returns (), st))"

definition swift_resolve_resilientAccessors ::
  "nat \<Rightarrow> env \<Rightarrow> addr \<Rightarrow> 64 word \<Rightarrow> addr \<Rightarrow> 64 word \<Rightarrow> addr \<Rightarrow> state \<Rightarrow> unit outcome \<times> state" where
  "swift_resolve_resilientAccessors fuel E layoutStr layoutStrOffset fieldLayoutStr refCountBytes
       fieldType st =
     resolve_loop fuel E layoutStr layoutStrOffset fieldLayoutStr refCountBytes fieldType
       layoutStringHeaderSize st"

text \<open>\<^verbatim>\<open>swift_generic_instantiateLayoutString\<close> sets the layout string of the metadata.\<close>

definition swift_generic_instantiateLayoutString :: "addr \<Rightarrow> addr \<Rightarrow> env \<Rightarrow> env" where
  "swift_generic_instantiateLayoutString layoutStr ty E =
     E\<lparr>md_layoutString := (md_layoutString E)(ty := layoutStr)\<rparr>"

section \<open>Vocabulary of the properties\<close>

subsection \<open>Runs as lists of events\<close>

text \<open>
  The events a run adds to the trace, the memory after a list of events, and a run from
  one state to another whose events all satisfy a predicate.
\<close>

definition new_events :: "state \<Rightarrow> state \<Rightarrow> event list" where
  "new_events st st' = drop (length (trace st)) (trace st')"

definition replay :: "env \<Rightarrow> event list \<Rightarrow> heap \<Rightarrow> heap" where
  "replay E evs h = foldl (\<lambda>h e. apply_event E e h) h evs"

definition emits :: "env \<Rightarrow> event list \<Rightarrow> state \<Rightarrow> state" where
  "emits E evs st = foldl (\<lambda>s e. emit E e s) st evs"

definition run_of :: "env \<Rightarrow> (event \<Rightarrow> bool) \<Rightarrow> state \<Rightarrow> state \<Rightarrow> bool" where
  "run_of E P st st' =
     (trace st' = trace st @ new_events st st' \<and>
      heap st' = replay E (new_events st st') (heap st) \<and>
      list_all P (new_events st st'))"

text \<open>
  The external functions by what they do to a reference count or a sub-value: the release
  side (the natives of \<open>destroyTable\<close> and the destroy witness), the retain side (the
  natives of \<open>retainTable\<close>, \<^verbatim>\<open>_Block_copy\<close> and the copy witnesses), the take side, and
  the metadata accessors.
\<close>

fun release_fn :: "extfn \<Rightarrow> bool" where
  "release_fn swift_errorRelease = True"
| "release_fn swift_release = True"
| "release_fn swift_unownedRelease = True"
| "release_fn swift_weakDestroy = True"
| "release_fn swift_unknownObjectRelease = True"
| "release_fn swift_unknownObjectUnownedDestroy = True"
| "release_fn swift_unknownObjectWeakDestroy = True"
| "release_fn swift_bridgeObjectRelease = True"
| "release_fn Block_release = True"
| "release_fn (vw_destroy ty) = True"
| "release_fn f = False"

fun retain_fn :: "extfn \<Rightarrow> bool" where
  "retain_fn swift_errorRetain = True"
| "retain_fn swift_retain = True"
| "retain_fn swift_unownedRetain = True"
| "retain_fn swift_weakCopyInit = True"
| "retain_fn swift_unknownObjectRetain = True"
| "retain_fn swift_unknownObjectUnownedCopyInit = True"
| "retain_fn swift_unknownObjectWeakCopyInit = True"
| "retain_fn swift_bridgeObjectRetain = True"
| "retain_fn Block_copy = True"
| "retain_fn objc_retain = True"
| "retain_fn (vw_initializeWithCopy ty) = True"
| "retain_fn (vw_initializeBufferWithCopyOfBuffer ty) = True"
| "retain_fn f = False"

fun take_fn :: "extfn \<Rightarrow> bool" where
  "take_fn swift_unknownObjectWeakTakeInit = True"
| "take_fn (vw_initializeWithTake ty) = True"
| "take_fn f = False"

fun accessor_fn :: "extfn \<Rightarrow> bool" where
  "accessor_fn (MetadataAccessor fn) = True"
| "accessor_fn f = False"

fun is_call :: "event \<Rightarrow> bool" where
  "is_call (Call f args) = True"
| "is_call (Wr p bs) = False"

fun destroy_event :: "event \<Rightarrow> bool" where
  "destroy_event (Call f args) = (release_fn f \<or> accessor_fn f)"
| "destroy_event (Wr p bs) = False"

fun copy_event :: "env \<Rightarrow> event \<Rightarrow> bool" where
  "copy_event E (Call f args) = (retain_fn f \<or> accessor_fn f)"
| "copy_event E (Wr p bs) = (objc_interop E \<and> length bs = 8)"

fun take_event :: "event \<Rightarrow> bool" where
  "take_event (Call f args) = (take_fn f \<or> accessor_fn f)"
| "take_event (Wr p bs) = False"

fun handler_event :: "env \<Rightarrow> handler \<Rightarrow> event \<Rightarrow> bool" where
  "handler_event E (DestroyHandler a) = destroy_event"
| "handler_event E (CopyHandler dest src) = copy_event E"

fun handler_table :: "env \<Rightarrow> handler \<Rightarrow> (callable option \<times> bool) list" where
  "handler_table E (DestroyHandler a) = destroyTable (objc_interop E)"
| "handler_table E (CopyHandler dest src) = retainTable (objc_interop E)"

fun destroy_callable :: "callable option \<times> bool \<Rightarrow> bool" where
  "destroy_callable (Some (Native f), flag) = release_fn f"
| "destroy_callable (Some Fn_skipDestroy, flag) = True"
| "destroy_callable (Some Fn_existential_destroy, flag) = True"
| "destroy_callable (None, flag) = True"
| "destroy_callable (Some c, flag) = False"

fun retain_callable :: "bool \<Rightarrow> callable option \<times> bool \<Rightarrow> bool" where
  "retain_callable objc (Some (Native f), flag) = retain_fn f"
| "retain_callable objc (Some Fn_skipRetain, flag) = True"
| "retain_callable objc (Some Fn_existential_initializeWithCopy, flag) = True"
| "retain_callable objc (Some Fn_Block_copyForwarder, flag) = objc"
| "retain_callable objc (None, flag) = True"
| "retain_callable objc (Some c, flag) = False"

subsection \<open>Layout strings as lists of entries\<close>

text \<open>
  An entry as the spec describes it: a tag and a 56-bit skip, with the payload of the
  kind. \<open>Ref\<close> is an entry of one word (any kind that has no payload), \<open>Meta\<close> a
  \<open>Metatype\<close> entry with its metadata pointer, \<open>Resil\<close> a \<open>Resilient\<close> entry with the
  8 bytes that hold the relative offset of its accessor. \<open>layout_words\<close> is the entry
  part of a layout string: the entries, then one \<open>End\<close> entry. \<open>words_at\<close> says that
  memory holds these words from an address on.
\<close>

datatype entry = Ref "8 word" "56 word" | Meta "56 word" addr | Resil "56 word" "64 word"

definition entry_word :: "8 word \<Rightarrow> 56 word \<Rightarrow> 64 word" where
  "entry_word tag skip = push_bit 56 (ucast tag) OR ucast skip"

fun entry_words :: "entry \<Rightarrow> 64 word list" where
  "entry_words (Ref tag skip) = [entry_word tag skip]"
| "entry_words (Meta skip ty) = [entry_word kind_Metatype skip, ty]"
| "entry_words (Resil skip raw) = [entry_word kind_Resilient skip, raw]"

definition layout_words :: "entry list \<Rightarrow> 56 word \<Rightarrow> 64 word list" where
  "layout_words es endskip = concat (map entry_words es) @ [entry_word kind_End endskip]"

fun words_at :: "heap \<Rightarrow> addr \<Rightarrow> 64 word list \<Rightarrow> bool" where
  "words_at h p [] = True"
| "words_at h p (w # ws) = (load64 h p = w \<and> words_at h (p + 8) ws)"

text \<open>No external call changes the \<open>n\<close> bytes from \<open>p\<close> on.\<close>

definition frame :: "env \<Rightarrow> addr \<Rightarrow> nat \<Rightarrow> bool" where
  "frame E p n = (\<forall>f args h k. k < n \<longrightarrow> call_effect E f args h (p + of_nat k) = h (p + of_nat k))"

text \<open>
  The row of a table for a tag, when it holds an external function: the function and the
  flag of the row.
\<close>

definition native_of :: "(callable option \<times> bool) list \<Rightarrow> 8 word \<Rightarrow> (extfn \<times> bool) option" where
  "native_of table tag =
     (if unat tag < length table
      then (case table ! unat tag of (Some (Native f), flag) \<Rightarrow> Some (f, flag) | _ \<Rightarrow> None)
      else None)"

text \<open>
  What the spec says a traversal of a list of entries does, entry by entry, at the
  cumulative address offset: the call of the table's function for a \<open>Ref\<close> entry (on the
  pointer stored in the field or on the address of the field, as the flag says), the
  witness of the metadata for a \<open>Meta\<close> entry, the accessor and then the witness for a
  \<open>Resil\<close> entry. Each event sees the memory the earlier ones left.
\<close>

fun ref_call :: "handler \<Rightarrow> extfn \<times> bool \<Rightarrow> 64 word \<Rightarrow> heap \<Rightarrow> event" where
  "ref_call (DestroyHandler a) (f, isIndirect) aoff h =
     Call f [if isIndirect then load64 h (a + aoff) else a + aoff]"
| "ref_call (CopyHandler d s) (f, isSingle) aoff h =
     Call f (if isSingle then [load64 h (d + aoff)] else [d + aoff, s + aoff])"

fun meta_call :: "handler \<Rightarrow> addr \<Rightarrow> 64 word \<Rightarrow> event" where
  "meta_call (DestroyHandler a) ty aoff = Call (vw_destroy ty) [a + aoff]"
| "meta_call (CopyHandler d s) ty aoff = Call (vw_initializeWithCopy ty) [d + aoff, s + aoff]"

definition accessor_of :: "addr \<Rightarrow> 64 word \<Rightarrow> 64 word \<Rightarrow> addr" where
  "accessor_of L offset raw = L + offset + scast (ucast raw :: 32 word)"

fun handler_calls ::
  "env \<Rightarrow> handler \<Rightarrow> addr \<Rightarrow> addr \<Rightarrow> entry list \<Rightarrow> 64 word \<Rightarrow> 64 word \<Rightarrow> heap \<Rightarrow> event list" where
  "handler_calls E H md L [] offset aoff h = []"
| "handler_calls E H md L (Ref tag skip # es) offset aoff h =
     (let aoff' = aoff + ucast skip;
          e = ref_call H (the (native_of (handler_table E H) tag)) aoff' h
      in e # handler_calls E H md L es (offset + 8) aoff' (apply_event E e h))"
| "handler_calls E H md L (Meta skip ty # es) offset aoff h =
     (let aoff' = aoff + ucast skip;
          e = meta_call H ty aoff'
      in e # handler_calls E H md L es (offset + 16) aoff' (apply_event E e h))"
| "handler_calls E H md L (Resil skip raw # es) offset aoff h =
     (let aoff' = aoff + ucast skip;
          fn = MetadataAccessor (accessor_of L (offset + 8) raw);
          args = [md_genericArgs E md];
          ty = call_result E fn args h;
          h1 = apply_event E (Call fn args) h;
          e = meta_call H ty aoff'
      in Call fn args # e # handler_calls E H md L es (offset + 16) aoff' (apply_event E e h1))"

fun handled :: "env \<Rightarrow> handler \<Rightarrow> entry \<Rightarrow> bool" where
  "handled E H (Ref tag skip) = (native_of (handler_table E H) tag \<noteq> None)"
| "handled E H (Meta skip ty) = True"
| "handled E H (Resil skip raw) = True"

text \<open>
  The same for take-initialisation: an \<open>UnknownWeak\<close> entry takes the weak slot; a
  \<open>Metatype\<close>, \<open>Resilient\<close> or \<open>Existential\<close> entry calls the take witness of its type
  when the type is not bitwise takable; any other entry does nothing.
\<close>

definition take_call :: "env \<Rightarrow> addr \<Rightarrow> addr \<Rightarrow> addr \<Rightarrow> 64 word \<Rightarrow> event list" where
  "take_call E ty dest src aoff =
     (if \<not> md_bitwiseTakable E ty
      then [Call (vw_initializeWithTake ty) [dest + aoff, src + aoff]]
      else [])"

definition take_ref_calls :: "env \<Rightarrow> addr \<Rightarrow> addr \<Rightarrow> 8 word \<Rightarrow> 64 word \<Rightarrow> heap \<Rightarrow> event list" where
  "take_ref_calls E dest src tag aoff h =
     (if tag = kind_UnknownWeak
      then [Call swift_unknownObjectWeakTakeInit [dest + aoff, src + aoff]]
      else if tag = kind_Existential
      then take_call E (getExistentialTypeMetadata h (src + aoff)) dest src aoff
      else [])"

fun take_calls ::
  "env \<Rightarrow> addr \<Rightarrow> addr \<Rightarrow> addr \<Rightarrow> addr \<Rightarrow> entry list \<Rightarrow> 64 word \<Rightarrow> 64 word \<Rightarrow> heap \<Rightarrow> event list" where
  "take_calls E dest src md L [] offset aoff h = []"
| "take_calls E dest src md L (Ref tag skip # es) offset aoff h =
     (let aoff' = aoff + ucast skip;
          evs = take_ref_calls E dest src tag aoff' h
      in evs @ take_calls E dest src md L es (offset + 8) aoff' (replay E evs h))"
| "take_calls E dest src md L (Meta skip ty # es) offset aoff h =
     (let aoff' = aoff + ucast skip;
          evs = take_call E ty dest src aoff'
      in evs @ take_calls E dest src md L es (offset + 16) aoff' (replay E evs h))"
| "take_calls E dest src md L (Resil skip raw # es) offset aoff h =
     (let aoff' = aoff + ucast skip;
          fn = MetadataAccessor (accessor_of L (offset + 8) raw);
          args = [md_genericArgs E md];
          ty = call_result E fn args h;
          evs = Call fn args # take_call E ty dest src aoff'
      in evs @ take_calls E dest src md L es (offset + 16) aoff' (replay E evs h))"

fun take_handled :: "entry \<Rightarrow> bool" where
  "take_handled (Ref tag skip) =
     (tag \<noteq> kind_End \<and> tag \<noteq> kind_Metatype \<and> tag \<noteq> kind_Resilient
      \<and> tag \<noteq> kind_SinglePayloadEnumSimple)"
| "take_handled (Meta skip ty) = True"
| "take_handled (Resil skip raw) = True"


subsection \<open>Vocabulary of the claims\<close>

text \<open>
  A managed field: an entry of one word whose kind has an external release function in
  \<open>destroyTable\<close>. A release call is a call of a function of the release side.
\<close>

fun managed :: "bool \<Rightarrow> entry \<Rightarrow> bool" where
  "managed objc (Ref tag skip) = (native_of (destroyTable objc) tag \<noteq> None)"
| "managed objc (Meta skip ty) = False"
| "managed objc (Resil skip raw) = False"

fun release_call :: "event \<Rightarrow> bool" where
  "release_call (Call f args) = release_fn f"
| "release_call (Wr p bs) = False"

text \<open>
  A call that changes a reference count (or initialises a copy): a call of a function of
  the release side or of the retain side. A row of a table names such a function when it
  names an external function at all.
\<close>

fun refcount_event :: "event \<Rightarrow> bool" where
  "refcount_event (Call f args) = (release_fn f \<or> retain_fn f)"
| "refcount_event (Wr p bs) = False"

fun refcount_row :: "callable option \<times> bool \<Rightarrow> bool" where
  "refcount_row (Some (Native f), flag) = (release_fn f \<or> retain_fn f)"
| "refcount_row (c, flag) = True"

text \<open>
  The spec's "followed by": the second operation runs on the state the first one left,
  when the first one has returned. \<open>extends\<close> says that a run only adds events.
\<close>

definition followed_by ::
  "(state \<Rightarrow> unit outcome \<times> state) \<Rightarrow> (state \<Rightarrow> addr outcome \<times> state) \<Rightarrow> state
     \<Rightarrow> addr outcome \<times> state" where
  "followed_by first second st =
     (case first st of
        (Returns u, st1) \<Rightarrow> second st1
      | (Fatal f, st1) \<Rightarrow> (Fatal f, st1)
      | (OutOfFuel, st1) \<Rightarrow> (OutOfFuel, st1))"

definition extends :: "state \<Rightarrow> state \<Rightarrow> bool" where
  "extends st st' = (trace st' = trace st @ new_events st st')"

text \<open>
  An address that an event of the file's own does not write (calls are left to the
  environment), and an address that no external call changes.
\<close>

fun outside :: "addr \<Rightarrow> event \<Rightarrow> bool" where
  "outside a (Call f args) = True"
| "outside a (Wr p bs) = (\<not> unat (a - p) < length bs)"

definition callables_keep :: "env \<Rightarrow> addr \<Rightarrow> bool" where
  "callables_keep E a = (\<forall>f args h. call_effect E f args h a = h a)"

text \<open>A tag whose row in a table holds the null pointer.\<close>

definition null_row :: "(callable option \<times> bool) list \<Rightarrow> 8 word \<Rightarrow> bool" where
  "null_row table tag = (unat tag < length table \<and> fst (table ! unat tag) = None)"

subsection \<open>A concrete world\<close>

text \<open>
  The example of the spec: a value of 16 bytes with a native strong reference at offset 0
  and 8 scalar bytes. Every metadata pointer has the layout string at \<open>0x1000\<close>, whose
  entries (after the header of 16 bytes) are \<open>NativeStrong\<close> with skip 0 and \<open>End\<close> with
  skip 8; the value at \<open>0x2000\<close> holds the pointer \<open>0xAAA0\<close>. External calls leave memory
  as it is, and the only type that is bitwise takable is the one at \<open>0x8000\<close>.
\<close>

definition env0 :: env where
  "env0 = \<lparr>objc_interop = False, md_layoutString = (\<lambda>md. 0x1000), md_size = (\<lambda>md. 16),
     md_bitwiseTakable = (\<lambda>md. md = 0x8000), md_valueInline = (\<lambda>md. True),
     md_genericArgs = (\<lambda>md. 0x3000), call_effect = (\<lambda>f args h. h),
     call_result = (\<lambda>f args h. 0x4000)\<rparr>"

definition heap0 :: heap where
  "heap0 = write_bytes (write_bytes (write_bytes (\<lambda>a. 0) 0x1010 (bytes64 0x0200000000000000))
      0x1018 (bytes64 8)) 0x2000 (bytes64 0xAAA0)"

text \<open>
  A value of 24 bytes at \<open>0x2000\<close> with three managed fields: a native strong reference,
  a native weak reference and a reference to an unknown object, 8 bytes apart.
\<close>

definition heap7 :: heap where
  "heap7 = write_bytes (write_bytes (write_bytes (write_bytes (write_bytes (write_bytes (\<lambda>a. 0)
      0x1010 (bytes64 0x0200000000000000)) 0x1018 (bytes64 0x0400000000000008))
      0x1020 (bytes64 0x0500000000000008)) 0x1028 (bytes64 8))
      0x2000 (bytes64 0xAAA0)) 0x2010 (bytes64 0xBBB0)"

text \<open>
  A layout string for take-initialisation at \<open>0x1000\<close>: an \<open>UnknownWeak\<close> entry with
  skip 0, a \<open>Metatype\<close> entry with skip 8 for the metadata at \<open>0x7000\<close>, a
  \<open>NativeWeak\<close> entry with skip 0, and \<open>End\<close>.
\<close>

definition heap1 :: heap where
  "heap1 = write_bytes (write_bytes (write_bytes (write_bytes (\<lambda>a. 0)
      0x1010 (bytes64 0x0700000000000000)) 0x1018 (bytes64 0x0C00000000000008))
      0x1020 (bytes64 0x7000)) 0x1028 (bytes64 0x0400000000000000)"

text \<open>
  Two layout strings with a \<open>SinglePayloadEnumSimple\<close> entry at \<open>0x1010\<close>, whose
  parameters start at offset 24. In \<open>heap2\<close> the entry has no discriminator at all
  (both patterns are zero), the payload has one entry of 8 bytes, a \<open>NativeStrong\<close>
  reference, and the enum is 8 bytes wide. In \<open>heap3\<close> the entry has one extra tag byte
  after a payload of 8 bytes, and the value at \<open>0x2000\<close> holds the tag byte 1.
\<close>

definition heap2 :: heap where
  "heap2 = write_bytes (write_bytes (write_bytes (write_bytes (write_bytes (write_bytes (\<lambda>a. 0)
      0x1010 (bytes64 0x1000000000000000)) 0x1020 (bytes64 8)) 0x1038 (bytes64 8))
      0x1040 (bytes64 8)) 0x1048 (bytes64 0x0200000000000000)) 0x2000 (bytes64 0xAAA0)"

definition heap3 :: heap where
  "heap3 = write_bytes (write_bytes (write_bytes (write_bytes (write_bytes (\<lambda>a. 0)
      0x1018 (bytes64 0x4000000000000000)) 0x1020 (bytes64 8)) 0x1038 (bytes64 8))
      0x1040 (bytes64 9)) 0x2008 [1]"

text \<open>A layout string at \<open>0x1000\<close> with one entry of the reserved kind \<open>Custom\<close>.\<close>

definition heap4 :: heap where
  "heap4 = write_bytes (\<lambda>a. 0) 0x1010 (bytes64 0x0B00000000000000)"

text \<open>
  Two layout strings for the patch pass, both at \<open>0x1000\<close>. In \<open>heap5\<close> the entries are
  a \<open>SinglePayloadEnumSimple\<close> entry (one word and 48 bytes of parameters: 8 bytes of
  extra inhabitants at offset 0, a payload whose entries take 16 bytes) and, as the
  payload's entry at offset 72, a \<open>Resilient\<close> entry with the relative offset \<open>0x100\<close>;
  the value at \<open>0x2000\<close> holds the pointer \<open>0xAAA0\<close>. In \<open>heap6\<close> the only entry is a
  \<open>Resilient\<close> entry with skip 8 and the relative offset \<open>0x100\<close>.
\<close>

definition heap5 :: heap where
  "heap5 = write_bytes (write_bytes (write_bytes (write_bytes (write_bytes (write_bytes
     (write_bytes (write_bytes (write_bytes (\<lambda>a. 0) 0x2000 (bytes64 0xAAA0))
      0x1010 (bytes64 0x1000000000000000)) 0x1018 (bytes64 0x2000000000000000))
      0x1020 (bytes64 8)) 0x1030 (bytes64 1)) 0x1038 (bytes64 16)) 0x1040 (bytes64 8))
      0x1048 (bytes64 0x0F00000000000000)) 0x1050 (bytes64 0x100)"

definition heap6 :: heap where
  "heap6 = write_bytes (write_bytes (\<lambda>a. 0)
      0x1010 (bytes64 0x0F00000000000008)) 0x1018 (bytes64 0x100)"

section \<open>Lemmas\<close>

lemma run_ofI:
  "trace st' = trace st @ evs \<Longrightarrow> heap st' = replay E evs (heap st) \<Longrightarrow> list_all P evs
     \<Longrightarrow> run_of E P st st'"
  by (simp add: run_of_def new_events_def)

lemma run_of_refl: "run_of E P st st"
  by (simp add: run_of_def new_events_def replay_def)

lemma run_of_emit: "P e \<Longrightarrow> run_of E P st (emit E e st)"
  by (simp add: run_of_def new_events_def replay_def emit_def)

lemma run_of_trans:
  assumes "run_of E P st st1" and "run_of E P st1 st2"
  shows "run_of E P st st2"
proof -
  let ?a = "new_events st st1" and ?b = "new_events st1 st2"
  from assms have t: "trace st2 = trace st @ (?a @ ?b)"
    by (simp add: run_of_def)
  from assms have h: "heap st2 = replay E (?a @ ?b) (heap st)"
    by (simp add: run_of_def replay_def)
  from assms have p: "list_all P (?a @ ?b)"
    by (simp add: run_of_def)
  from t h p show ?thesis by (rule run_ofI)
qed

lemma run_of_mono: "run_of E P st st' \<Longrightarrow> (\<And>e. P e \<Longrightarrow> Q e) \<Longrightarrow> run_of E Q st st'"
  by (auto simp: run_of_def list_all_iff)

lemma new_events_append:
  assumes "trace st1 = trace st @ a" and "trace st2 = trace st1 @ b"
  shows "new_events st st2 = a @ b"
  using assms by (simp add: new_events_def)

lemma run_of_emit2: "P e1 \<Longrightarrow> P e2 \<Longrightarrow> run_of E P st (emit E e2 (emit E e1 st))"
  by (blast intro: run_of_trans run_of_emit)

lemma run_of_getResilient:
  "(\<And>f args. accessor_fn f \<Longrightarrow> P (Call f args)) \<Longrightarrow>
   run_of E P st (snd (snd (getResilientTypeMetadata E md L offset st)))"
  by (simp add: getResilientTypeMetadata_def readBytes_def Let_def run_of_emit)

lemma run_of_existential_destroy: "run_of E destroy_event st (existential_destroy E a st)"
  by (simp add: existential_destroy_def Let_def run_of_emit)

lemma run_of_existential_copy: "run_of E (copy_event E') st (existential_initializeWithCopy E d s st)"
  by (simp add: existential_initializeWithCopy_def Let_def run_of_emit)

lemma run_of_Block_copyForwarder:
  "objc_interop E' \<Longrightarrow> run_of E (copy_event E') st (Block_copyForwarder E d s st)"
  by (simp add: Block_copyForwarder_def Let_def run_of_emit2 bytes64_def)

lemma destroyTable_callables: "list_all destroy_callable (destroyTable objc)"
  by (simp add: destroyTable_def)

lemma retainTable_callables: "list_all (retain_callable objc) (retainTable objc)"
  by (simp add: retainTable_def)

lemma run_of_invoke_destroy:
  "destroy_callable (Some c, flag) \<Longrightarrow> run_of E destroy_event st (snd (invoke E c args st))"
  by (cases "(E, c, args, st)" rule: invoke.cases)
     (auto simp: run_of_refl run_of_emit run_of_existential_destroy skipDestroy_def)

lemma run_of_invoke_retain:
  "retain_callable (objc_interop E) (Some c, flag) \<Longrightarrow> run_of E (copy_event E) st (snd (invoke E c args st))"
  by (cases "(E, c, args, st)" rule: invoke.cases)
     (auto simp: run_of_refl run_of_emit run_of_existential_copy skipRetain_def
        run_of_Block_copyForwarder)

lemma run_of_dispatch:
  assumes "list_all C table"
    and "\<And>c flag args st. C (Some c, flag) \<Longrightarrow> run_of E P st (snd (invoke E c args st))"
  shows "run_of E P st (snd (dispatch E table tag args st))"
proof (cases "unat tag < length table")
  case False
  then show ?thesis by (simp add: dispatch_def run_of_refl)
next
  case True
  with assms(1) have "C (table ! unat tag)" by (simp add: list_all_length)
  with True assms(2) show ?thesis
    by (auto simp: dispatch_def run_of_refl split: prod.splits option.splits)
qed

lemma run_of_handleReference:
  "run_of E (handler_event E H) st (snd (handleReference E H tag addrOffset st))"
  by (cases H)
     (auto intro: run_of_dispatch [OF destroyTable_callables] run_of_dispatch [OF retainTable_callables]
        run_of_invoke_destroy run_of_invoke_retain)

lemma run_of_handleMetatype:
  "run_of E (handler_event E H) st (handleMetatype E H ty addrOffset st)"
  by (cases H) (auto simp: run_of_emit)

lemma run_of_handleNextRefCount:
  "run_of E (handler_event E H) st
     (snd (snd (snd (handleNextRefCount E H metadata typeLayout offset addrOffset st))))"
proof -
  define w where "w = load64 (heap st) (typeLayout + offset)"
  define a1 where "a1 = addrOffset + entry_skip w"
  have acc: "\<And>f args. accessor_fn f \<Longrightarrow> handler_event E H (Call f args)"
    by (cases H) auto
  consider (End) "entry_tag w = kind_End"
    | (Meta) "entry_tag w \<noteq> kind_End" "entry_tag w = kind_Metatype"
    | (Resil) "entry_tag w \<noteq> kind_End" "entry_tag w \<noteq> kind_Metatype" "entry_tag w = kind_Resilient"
    | (Enum) "entry_tag w \<noteq> kind_End" "entry_tag w \<noteq> kind_Metatype" "entry_tag w \<noteq> kind_Resilient"
        "entry_tag w = kind_SinglePayloadEnumSimple"
    | (Ref) "entry_tag w \<noteq> kind_End" "entry_tag w \<noteq> kind_Metatype" "entry_tag w \<noteq> kind_Resilient"
        "entry_tag w \<noteq> kind_SinglePayloadEnumSimple"
    by blast
  then show ?thesis
  proof cases
    case End
    then show ?thesis
      by (simp add: handleNextRefCount_def Let_def readBytes_def w_def run_of_refl)
  next
    case Meta
    then show ?thesis
      by (simp add: handleNextRefCount_def Let_def readBytes_def w_def run_of_handleMetatype)
  next
    case Resil
    obtain ty o2 st1 where g: "getResilientTypeMetadata E metadata typeLayout (offset + 8) st = (ty, o2, st1)"
      by (cases "getResilientTypeMetadata E metadata typeLayout (offset + 8) st") auto
    from run_of_getResilient [of "handler_event E H" E st metadata typeLayout "offset + 8"] acc g
    have "run_of E (handler_event E H) st st1" by simp
    then have "run_of E (handler_event E H) st (handleMetatype E H ty a1 st1)"
      by (rule run_of_trans) (rule run_of_handleMetatype)
    with Resil g show ?thesis
      by (simp add: handleNextRefCount_def Let_def readBytes_def w_def a1_def)
  next
    case Enum
    then show ?thesis
      by (simp add: handleNextRefCount_def Let_def readBytes_def w_def run_of_refl
            split: sum.splits prod.splits)
  next
    case Ref
    obtain fo st1 where r: "handleReference E H (entry_tag w) a1 st = (fo, st1)"
      by (cases "handleReference E H (entry_tag w) a1 st") auto
    from run_of_handleReference [of E H st "entry_tag w" a1] r
    have "run_of E (handler_event E H) st st1" by simp
    with Ref r show ?thesis
      by (simp add: handleNextRefCount_def Let_def readBytes_def w_def a1_def split: option.splits)
  qed
qed

lemma run_of_while_loop:
  assumes "\<And>offset addrOffset st. run_of E P st (snd (snd (snd (step offset addrOffset st))))"
  shows "run_of E P st (snd (while_loop n step offset addrOffset st))"
proof (induction n arbitrary: offset addrOffset st)
  case 0
  show ?case by (simp add: run_of_refl)
next
  case (Suc n)
  obtain r o' a' st' where s: "step offset addrOffset st = (r, o', a', st')"
    by (cases "step offset addrOffset st") auto
  with assms [of st offset addrOffset] have one: "run_of E P st st'" by simp
  show ?case
  proof (cases r)
    case (Returns b)
    with s one Suc.IH show ?thesis
      by (cases b) (auto intro: run_of_trans)
  qed (use s one in auto)
qed

lemma run_of_for_loop:
  assumes "\<And>offset addrOffset st. run_of E P st (snd (snd (snd (step offset addrOffset st))))"
  shows "run_of E P st (snd (for_loop n step offset addrOffset st))"
proof (induction n arbitrary: offset addrOffset st)
  case 0
  show ?case by (simp add: run_of_refl)
next
  case (Suc n)
  obtain r o' a' st' where s: "step offset addrOffset st = (r, o', a', st')"
    by (cases "step offset addrOffset st") auto
  with assms [of st offset addrOffset] have one: "run_of E P st st'" by simp
  show ?case
  proof (cases r)
    case (Returns b)
    with s one Suc.IH show ?thesis
      by (auto intro: run_of_trans)
  qed (use s one in auto)
qed

lemma run_of_handleRefCounts:
  "run_of E (handler_event E H) st (snd (handleRefCounts N fuel E H metadata st))"
  by (simp add: handleRefCounts_def Let_def run_of_while_loop run_of_for_loop
        run_of_handleNextRefCount)

lemma snd_returning: "snd (returning dest r) = snd r"
  by (cases "(dest, r)" rule: returning.cases) auto

lemma fst_returning: "fst (returning dest r) = Returns x \<Longrightarrow> x = dest"
  by (cases "(dest, r)" rule: returning.cases) auto

lemma ff56: "push_bit 56 (0xff :: 64 word) = NOT (mask 56)"
  by (simp add: mask_eq_exp_minus_1)

lemma entry_skip_take_bit: "entry_skip w = take_bit 56 w"
  unfolding entry_skip_def ff56 by (simp add: take_bit_eq_mask)

lemma entry_tag_word [simp]: "entry_tag (entry_word t s) = t"
  unfolding entry_tag_def entry_word_def
  by (rule bit_eqI) (auto simp: bit_simps dest: bit_imp_le_length)

lemma entry_skip_word [simp]: "entry_skip (entry_word t s) = ucast s"
  unfolding entry_skip_take_bit entry_word_def
  by (rule bit_eqI) (auto simp: bit_simps dest: bit_imp_le_length)

lemma load64_cong:
  assumes "\<And>k. k < 8 \<Longrightarrow> h' (p + of_nat k) = h (p + of_nat k)"
  shows "load64 h' p = load64 h p"
proof -
  have "h' (p + of_nat 0) = h (p + of_nat 0)" "h' (p + of_nat 1) = h (p + of_nat 1)"
    "h' (p + of_nat 2) = h (p + of_nat 2)" "h' (p + of_nat 3) = h (p + of_nat 3)"
    "h' (p + of_nat 4) = h (p + of_nat 4)" "h' (p + of_nat 5) = h (p + of_nat 5)"
    "h' (p + of_nat 6) = h (p + of_nat 6)" "h' (p + of_nat 7) = h (p + of_nat 7)"
    by (rule assms, simp)+
  then show ?thesis by (simp add: load64_def)
qed

lemma frame_mono: "frame E p n \<Longrightarrow> m \<le> n \<Longrightarrow> frame E p m"
  by (auto simp: frame_def)

lemma frame_shift: "frame E p (m + n) \<Longrightarrow> frame E (p + of_nat m) n"
  unfolding frame_def
proof (intro allI impI)
  fix f args h k
  assume a: "\<forall>f args h k. k < m + n \<longrightarrow> call_effect E f args h (p + of_nat k) = h (p + of_nat k)"
    and k: "k < n"
  from k have "m + k < m + n" by simp
  with a have "call_effect E f args h (p + of_nat (m + k)) = h (p + of_nat (m + k))" by blast
  then show "call_effect E f args h (p + of_nat m + of_nat k) = h (p + of_nat m + of_nat k)"
    by (simp add: add.assoc)
qed

lemma load64_frame: "frame E p 8 \<Longrightarrow> load64 (call_effect E f args h) p = load64 h p"
  by (rule load64_cong) (simp add: frame_def)

lemma words_at_frame:
  "frame E p (8 * length ws) \<Longrightarrow> words_at h p ws \<Longrightarrow> words_at (call_effect E f args h) p ws"
proof (induction ws arbitrary: p)
  case Nil
  show ?case by simp
next
  case (Cons w ws)
  from Cons.prems(1) have f8: "frame E p 8" by (rule frame_mono) simp
  from Cons.prems(1) have "frame E p (8 + 8 * length ws)" by simp
  then have "frame E (p + of_nat 8) (8 * length ws)" by (rule frame_shift)
  then have "frame E (p + 8) (8 * length ws)" by simp
  with Cons.IH Cons.prems(2) f8 show ?case by (simp add: load64_frame)
qed

lemma words_at_append:
  "words_at h p (xs @ ys) = (words_at h p xs \<and> words_at h (p + 8 * of_nat (length xs)) ys)"
  by (induction xs arbitrary: p) (auto simp: algebra_simps)

lemma emits_Nil [simp]: "emits E [] st = st"
  by (simp add: emits_def)

lemma emits_Cons [simp]: "emits E (e # evs) st = emits E evs (emit E e st)"
  by (simp add: emits_def)

lemma trace_emits: "trace (emits E evs st) = trace st @ evs"
  by (induction evs arbitrary: st) (simp_all add: emit_def)

lemma heap_emits: "heap (emits E evs st) = replay E evs (heap st)"
  by (induction evs arbitrary: st) (simp_all add: emit_def replay_def)

lemma heap_emit [simp]: "heap (emit E e st) = apply_event E e (heap st)"
  by (simp add: emit_def)

lemma words_at_event:
  "is_call e \<Longrightarrow> frame E p (8 * length ws) \<Longrightarrow> words_at h p ws \<Longrightarrow> words_at (apply_event E e h) p ws"
  by (cases e) (simp_all add: words_at_frame)

lemma is_call_ref_call [simp]: "is_call (ref_call H fr a h)"
  by (cases "(H, fr, a, h)" rule: ref_call.cases) simp_all

lemma is_call_meta_call [simp]: "is_call (meta_call H ty a)"
  by (cases H) simp_all

lemma native_of_destroy_special:
  "native_of (destroyTable objc) kind_End = None"
  "native_of (destroyTable objc) kind_Metatype = None"
  "native_of (destroyTable objc) kind_Resilient = None"
  "native_of (destroyTable objc) kind_SinglePayloadEnumSimple = None"
  by (simp_all add: native_of_def destroyTable_def kind_defs)

lemma native_of_retain_special:
  "native_of (retainTable objc) kind_End = None"
  "native_of (retainTable objc) kind_Metatype = None"
  "native_of (retainTable objc) kind_Resilient = None"
  "native_of (retainTable objc) kind_SinglePayloadEnumSimple = None"
  by (simp_all add: native_of_def retainTable_def kind_defs)

lemma native_not_special:
  assumes "native_of (handler_table E H) tag = Some fr"
  shows "tag \<noteq> kind_End" "tag \<noteq> kind_Metatype" "tag \<noteq> kind_Resilient"
    "tag \<noteq> kind_SinglePayloadEnumSimple"
  using assms by (cases H; auto simp: native_of_destroy_special native_of_retain_special)+

lemma dispatch_native:
  "native_of table tag = Some (f, flag) \<Longrightarrow>
   dispatch E table tag args st = (None, emit E (Call f (args flag)) st)"
  by (auto simp: native_of_def dispatch_def split: if_splits prod.splits option.splits callable.splits)

lemma handleReference_native:
  "native_of (handler_table E H) tag = Some fr \<Longrightarrow>
   handleReference E H tag aoff st = (None, emit E (ref_call H fr aoff (heap st)) st)"
  by (cases H; cases fr) (auto simp: dispatch_native)

lemma handleMetatype_meta_call: "handleMetatype E H ty aoff st = emit E (meta_call H ty aoff) st"
  by (cases H) simp_all

lemma step_End:
  "load64 (heap st) (L + offset) = entry_word kind_End s \<Longrightarrow>
   handleNextRefCount E H md L offset aoff st = (Returns False, offset + 8, aoff + ucast s, st)"
  by (simp add: handleNextRefCount_def readBytes_def Let_def)

lemma step_Ref:
  assumes "load64 (heap st) (L + offset) = entry_word tag skip"
    and "native_of (handler_table E H) tag = Some fr"
  shows "handleNextRefCount E H md L offset aoff st =
     (Returns True, offset + 8, aoff + ucast skip, emit E (ref_call H fr (aoff + ucast skip) (heap st)) st)"
  using assms native_not_special [OF assms(2)]
  by (simp add: handleNextRefCount_def readBytes_def Let_def handleReference_native)

lemma step_Meta:
  assumes "load64 (heap st) (L + offset) = entry_word kind_Metatype skip"
    and "load64 (heap st) (L + (offset + 8)) = ty"
  shows "handleNextRefCount E H md L offset aoff st =
     (Returns True, offset + 16, aoff + ucast skip, emit E (meta_call H ty (aoff + ucast skip)) st)"
  using assms
  by (simp add: handleNextRefCount_def readBytes_def Let_def handleMetatype_meta_call kind_defs)

lemma step_Resil:
  assumes "load64 (heap st) (L + offset) = entry_word kind_Resilient skip"
    and "load64 (heap st) (L + (offset + 8)) = raw"
  shows "handleNextRefCount E H md L offset aoff st =
     (let fn = MetadataAccessor (accessor_of L (offset + 8) raw);
          args = [md_genericArgs E md];
          ty = call_result E fn args (heap st)
      in (Returns True, offset + 16, aoff + ucast skip,
          emit E (meta_call H ty (aoff + ucast skip)) (emit E (Call fn args) st)))"
  using assms
  by (simp add: handleNextRefCount_def readBytes_def Let_def handleMetatype_meta_call kind_defs
        getResilientTypeMetadata_def accessor_of_def)

lemma length_layout_words_pos: "0 < length (layout_words es s)"
  by (simp add: layout_words_def)

lemma layout_words_Nil: "layout_words [] s = [entry_word kind_End s]"
  by (simp add: layout_words_def)

lemma layout_words_Cons: "layout_words (e # es) s = entry_words e @ layout_words es s"
  by (simp add: layout_words_def)

lemma handler_loop:
  assumes "list_all (handled E H) es"
    and "words_at (heap st) (L + offset) (layout_words es s)"
    and "frame E (L + offset) (8 * length (layout_words es s))"
  shows "while_loop (Suc (length es + k)) (handleNextRefCount E H md L) offset aoff st =
     (Returns (), emits E (handler_calls E H md L es offset aoff (heap st)) st)"
  using assms
proof (induction es arbitrary: offset aoff st)
  case Nil
  then have "load64 (heap st) (L + offset) = entry_word kind_End s"
    by (simp add: layout_words_Nil)
  then show ?case by (simp add: step_End)
next
  case (Cons e es)
  show ?case
  proof (cases e)
    case (Ref tag skip)
    from Cons.prems(1) Ref obtain fr where fr: "native_of (handler_table E H) tag = Some fr"
      by auto
    let ?ev = "ref_call H fr (aoff + ucast skip) (heap st)"
    let ?st1 = "emit E ?ev st"
    from Cons.prems(2) Ref have w0: "load64 (heap st) (L + offset) = entry_word tag skip"
      and wr: "words_at (heap st) (L + (offset + 8)) (layout_words es s)"
      by (simp_all add: layout_words_Cons add.assoc)
    from Cons.prems(3) Ref have "frame E (L + offset) (8 + 8 * length (layout_words es s))"
      by (simp add: layout_words_Cons)
    then have "frame E (L + offset + of_nat 8) (8 * length (layout_words es s))"
      by (rule frame_shift)
    then have fr': "frame E (L + (offset + 8)) (8 * length (layout_words es s))"
      by (simp add: add.assoc)
    from wr fr' have wr': "words_at (heap ?st1) (L + (offset + 8)) (layout_words es s)"
      by (simp add: words_at_event)
    from Cons.prems(1) have "list_all (handled E H) es" by simp
    from Cons.IH [OF this wr' fr']
    have "while_loop (Suc (length es + k)) (handleNextRefCount E H md L) (offset + 8)
        (aoff + ucast skip) ?st1 =
      (Returns (), emits E (handler_calls E H md L es (offset + 8) (aoff + ucast skip) (heap ?st1)) ?st1)" .
    with step_Ref [OF w0 fr, of md aoff] Ref fr show ?thesis
      by (simp add: Let_def)
  next
    case (Meta skip ty)
    let ?ev = "meta_call H ty (aoff + ucast skip)"
    let ?st1 = "emit E ?ev st"
    from Cons.prems(2) Meta have w0: "load64 (heap st) (L + offset) = entry_word kind_Metatype skip"
      and w1: "load64 (heap st) (L + (offset + 8)) = ty"
      and wr: "words_at (heap st) (L + (offset + 16)) (layout_words es s)"
      by (simp_all add: layout_words_Cons add.assoc)
    from Cons.prems(3) Meta have "frame E (L + offset) (16 + 8 * length (layout_words es s))"
      by (simp add: layout_words_Cons)
    then have "frame E (L + offset + of_nat 16) (8 * length (layout_words es s))"
      by (rule frame_shift)
    then have fr': "frame E (L + (offset + 16)) (8 * length (layout_words es s))"
      by (simp add: add.assoc)
    from wr fr' have wr': "words_at (heap ?st1) (L + (offset + 16)) (layout_words es s)"
      by (simp add: words_at_event)
    from Cons.prems(1) have "list_all (handled E H) es" by simp
    from Cons.IH [OF this wr' fr']
    have "while_loop (Suc (length es + k)) (handleNextRefCount E H md L) (offset + 16)
        (aoff + ucast skip) ?st1 =
      (Returns (), emits E (handler_calls E H md L es (offset + 16) (aoff + ucast skip) (heap ?st1)) ?st1)" .
    with step_Meta [OF w0 w1, of E H md aoff] Meta show ?thesis
      by (simp add: Let_def)
  next
    case (Resil skip raw)
    let ?fn = "MetadataAccessor (accessor_of L (offset + 8) raw)"
    let ?args = "[md_genericArgs E md]"
    let ?ty = "call_result E ?fn ?args (heap st)"
    let ?st0 = "emit E (Call ?fn ?args) st"
    let ?ev = "meta_call H ?ty (aoff + ucast skip)"
    let ?st1 = "emit E ?ev ?st0"
    from Cons.prems(2) Resil have w0: "load64 (heap st) (L + offset) = entry_word kind_Resilient skip"
      and w1: "load64 (heap st) (L + (offset + 8)) = raw"
      and wr: "words_at (heap st) (L + (offset + 16)) (layout_words es s)"
      by (simp_all add: layout_words_Cons add.assoc)
    from Cons.prems(3) Resil have "frame E (L + offset) (16 + 8 * length (layout_words es s))"
      by (simp add: layout_words_Cons)
    then have "frame E (L + offset + of_nat 16) (8 * length (layout_words es s))"
      by (rule frame_shift)
    then have fr': "frame E (L + (offset + 16)) (8 * length (layout_words es s))"
      by (simp add: add.assoc)
    from wr fr' have "words_at (heap ?st0) (L + (offset + 16)) (layout_words es s)"
      by (simp add: words_at_frame)
    with fr' have wr': "words_at (heap ?st1) (L + (offset + 16)) (layout_words es s)"
      by (simp add: words_at_event)
    from Cons.prems(1) have "list_all (handled E H) es" by simp
    from Cons.IH [OF this wr' fr']
    have "while_loop (Suc (length es + k)) (handleNextRefCount E H md L) (offset + 16)
        (aoff + ucast skip) ?st1 =
      (Returns (), emits E (handler_calls E H md L es (offset + 16) (aoff + ucast skip) (heap ?st1)) ?st1)" .
    with step_Resil [OF w0 w1, of E H md aoff] Resil show ?thesis
      by (simp add: Let_def)
  qed
qed

lemma replay_Nil [simp]: "replay E [] h = h"
  by (simp add: replay_def)

lemma replay_Cons [simp]: "replay E (e # evs) h = replay E evs (apply_event E e h)"
  by (simp add: replay_def)

lemma replay_append [simp]: "replay E (xs @ ys) h = replay E ys (replay E xs h)"
  by (simp add: replay_def)

lemma emits_append [simp]: "emits E (xs @ ys) st = emits E ys (emits E xs st)"
  by (simp add: emits_def)

lemma words_at_emits:
  "list_all is_call evs \<Longrightarrow> frame E p (8 * length ws) \<Longrightarrow> words_at (heap st) p ws
     \<Longrightarrow> words_at (heap (emits E evs st)) p ws"
  by (induction evs arbitrary: st) (simp_all add: words_at_event)

lemma is_call_take_call [simp]: "list_all is_call (take_call E ty dest src aoff)"
  by (simp add: take_call_def)

lemma is_call_take_ref_calls [simp]: "list_all is_call (take_ref_calls E dest src tag aoff h)"
  by (simp add: take_ref_calls_def)

lemma takeIfNotBitwiseTakable_emits:
  "takeIfNotBitwiseTakable E ty dest src aoff st = emits E (take_call E ty dest src aoff) st"
  by (simp add: takeIfNotBitwiseTakable_def take_call_def)

lemma take_step_End:
  "load64 (heap st) (L + offset) = entry_word kind_End s \<Longrightarrow>
   initWithTake_step E dest src md L offset aoff st = (Returns False, offset + 8, aoff + ucast s, st)"
  by (simp add: initWithTake_step_def readBytes_def Let_def kind_defs)

lemma take_step_Ref:
  assumes "load64 (heap st) (L + offset) = entry_word tag skip"
    and "take_handled (Ref tag skip)"
  shows "initWithTake_step E dest src md L offset aoff st =
     (Returns True, offset + 8, aoff + ucast skip,
      emits E (take_ref_calls E dest src tag (aoff + ucast skip) (heap st)) st)"
  using assms
  by (simp add: initWithTake_step_def readBytes_def Let_def take_ref_calls_def
        takeIfNotBitwiseTakable_emits)

lemma take_step_Meta:
  assumes "load64 (heap st) (L + offset) = entry_word kind_Metatype skip"
    and "load64 (heap st) (L + (offset + 8)) = ty"
  shows "initWithTake_step E dest src md L offset aoff st =
     (Returns True, offset + 16, aoff + ucast skip,
      emits E (take_call E ty dest src (aoff + ucast skip)) st)"
  using assms
  by (simp add: initWithTake_step_def readBytes_def Let_def takeIfNotBitwiseTakable_emits kind_defs)

lemma take_step_Resil:
  assumes "load64 (heap st) (L + offset) = entry_word kind_Resilient skip"
    and "load64 (heap st) (L + (offset + 8)) = raw"
  shows "initWithTake_step E dest src md L offset aoff st =
     (let fn = MetadataAccessor (accessor_of L (offset + 8) raw);
          args = [md_genericArgs E md];
          ty = call_result E fn args (heap st)
      in (Returns True, offset + 16, aoff + ucast skip,
          emits E (Call fn args # take_call E ty dest src (aoff + ucast skip)) st))"
  using assms
  by (simp add: initWithTake_step_def readBytes_def Let_def takeIfNotBitwiseTakable_emits kind_defs
        getResilientTypeMetadata_def accessor_of_def)

lemma take_loop:
  assumes "list_all take_handled es"
    and "words_at (heap st) (L + offset) (layout_words es s)"
    and "frame E (L + offset) (8 * length (layout_words es s))"
  shows "while_loop (Suc (length es + k)) (initWithTake_step E dest src md L) offset aoff st =
     (Returns (), emits E (take_calls E dest src md L es offset aoff (heap st)) st)"
  using assms
proof (induction es arbitrary: offset aoff st)
  case Nil
  then have "load64 (heap st) (L + offset) = entry_word kind_End s"
    by (simp add: layout_words_Nil)
  then show ?case by (simp add: take_step_End)
next
  case (Cons e es)
  from Cons.prems(1) have rest: "list_all take_handled es" by simp
  show ?case
  proof (cases e)
    case (Ref tag skip)
    let ?evs = "take_ref_calls E dest src tag (aoff + ucast skip) (heap st)"
    let ?st1 = "emits E ?evs st"
    from Cons.prems(1) Ref have th: "take_handled (Ref tag skip)" by simp
    from Cons.prems(2) Ref have w0: "load64 (heap st) (L + offset) = entry_word tag skip"
      and wr: "words_at (heap st) (L + (offset + 8)) (layout_words es s)"
      by (simp_all add: layout_words_Cons add.assoc)
    from Cons.prems(3) Ref have "frame E (L + offset) (8 + 8 * length (layout_words es s))"
      by (simp add: layout_words_Cons)
    then have "frame E (L + offset + of_nat 8) (8 * length (layout_words es s))"
      by (rule frame_shift)
    then have fr': "frame E (L + (offset + 8)) (8 * length (layout_words es s))"
      by (simp add: add.assoc)
    from wr fr' have wr': "words_at (heap ?st1) (L + (offset + 8)) (layout_words es s)"
      by (simp add: words_at_emits)
    from Cons.IH [OF rest wr' fr']
    have "while_loop (Suc (length es + k)) (initWithTake_step E dest src md L) (offset + 8)
        (aoff + ucast skip) ?st1 =
      (Returns (), emits E (take_calls E dest src md L es (offset + 8) (aoff + ucast skip) (heap ?st1)) ?st1)" .
    with take_step_Ref [OF w0 th, of E dest src md aoff] Ref show ?thesis
      by (simp add: Let_def heap_emits)
  next
    case (Meta skip ty)
    let ?evs = "take_call E ty dest src (aoff + ucast skip)"
    let ?st1 = "emits E ?evs st"
    from Cons.prems(2) Meta have w0: "load64 (heap st) (L + offset) = entry_word kind_Metatype skip"
      and w1: "load64 (heap st) (L + (offset + 8)) = ty"
      and wr: "words_at (heap st) (L + (offset + 16)) (layout_words es s)"
      by (simp_all add: layout_words_Cons add.assoc)
    from Cons.prems(3) Meta have "frame E (L + offset) (16 + 8 * length (layout_words es s))"
      by (simp add: layout_words_Cons)
    then have "frame E (L + offset + of_nat 16) (8 * length (layout_words es s))"
      by (rule frame_shift)
    then have fr': "frame E (L + (offset + 16)) (8 * length (layout_words es s))"
      by (simp add: add.assoc)
    from wr fr' have wr': "words_at (heap ?st1) (L + (offset + 16)) (layout_words es s)"
      by (simp add: words_at_emits)
    from Cons.IH [OF rest wr' fr']
    have "while_loop (Suc (length es + k)) (initWithTake_step E dest src md L) (offset + 16)
        (aoff + ucast skip) ?st1 =
      (Returns (), emits E (take_calls E dest src md L es (offset + 16) (aoff + ucast skip) (heap ?st1)) ?st1)" .
    with take_step_Meta [OF w0 w1, of E dest src md aoff] Meta show ?thesis
      by (simp add: Let_def heap_emits)
  next
    case (Resil skip raw)
    let ?fn = "MetadataAccessor (accessor_of L (offset + 8) raw)"
    let ?args = "[md_genericArgs E md]"
    let ?ty = "call_result E ?fn ?args (heap st)"
    let ?evs = "Call ?fn ?args # take_call E ?ty dest src (aoff + ucast skip)"
    let ?st1 = "emits E ?evs st"
    from Cons.prems(2) Resil have w0: "load64 (heap st) (L + offset) = entry_word kind_Resilient skip"
      and w1: "load64 (heap st) (L + (offset + 8)) = raw"
      and wr: "words_at (heap st) (L + (offset + 16)) (layout_words es s)"
      by (simp_all add: layout_words_Cons add.assoc)
    from Cons.prems(3) Resil have "frame E (L + offset) (16 + 8 * length (layout_words es s))"
      by (simp add: layout_words_Cons)
    then have "frame E (L + offset + of_nat 16) (8 * length (layout_words es s))"
      by (rule frame_shift)
    then have fr': "frame E (L + (offset + 16)) (8 * length (layout_words es s))"
      by (simp add: add.assoc)
    have "list_all is_call ?evs" by simp
    from words_at_emits [OF this fr' wr]
    have wr': "words_at (heap ?st1) (L + (offset + 16)) (layout_words es s)" .
    from Cons.IH [OF rest wr' fr']
    have "while_loop (Suc (length es + k)) (initWithTake_step E dest src md L) (offset + 16)
        (aoff + ucast skip) ?st1 =
      (Returns (), emits E (take_calls E dest src md L es (offset + 16) (aoff + ucast skip) (heap ?st1)) ?st1)" .
    with take_step_Resil [OF w0 w1, of E dest src md aoff] Resil show ?thesis
      by (simp add: Let_def heap_emits)
  qed
qed

subsection \<open>Destroy: one release per managed field\<close>

lemma native_release_fn:
  "native_of (destroyTable objc) tag = Some (f, flag) \<Longrightarrow> release_fn f"
proof -
  assume a: "native_of (destroyTable objc) tag = Some (f, flag)"
  then have lt: "unat tag < length (destroyTable objc)"
    and row: "destroyTable objc ! unat tag = (Some (Native f), flag)"
    by (auto simp: native_of_def split: if_splits prod.splits option.splits callable.splits)
  from destroyTable_callables [of objc] lt have "destroy_callable (destroyTable objc ! unat tag)"
    by (simp add: list_all_length)
  with row show ?thesis by simp
qed

lemma managed_handled: "managed (objc_interop E) e \<Longrightarrow> handled E (DestroyHandler a) e"
  by (cases e) simp_all

lemma managed_calls:
  "list_all (managed (objc_interop E)) es \<Longrightarrow>
   length (handler_calls E (DestroyHandler a) md L es offset aoff h) = length es \<and>
   list_all release_call (handler_calls E (DestroyHandler a) md L es offset aoff h)"
proof (induction es arbitrary: offset aoff h)
  case Nil
  show ?case by simp
next
  case (Cons e es)
  from Cons.prems obtain tag skip f flag where e: "e = Ref tag skip"
    and n: "native_of (destroyTable (objc_interop E)) tag = Some (f, flag)"
    by (cases e) auto
  from n have "release_fn f" by (rule native_release_fn)
  with Cons e n show ?case by (simp add: Let_def)
qed

lemma frame_env0: "frame env0 p n"
  by (simp add: frame_def env0_def)

lemma unat_m1: "unat (- 1 :: 64 word) = 18446744073709551615"
  by (simp add: unsigned_minus_1_eq_mask mask_eq_exp_minus_1)

lemmas heap_eval = load64_def write_bytes_def bytes64_def unat_m1

lemma heap7_words:
  "load64 heap7 0x1010 = 0x0200000000000000" "load64 heap7 0x1018 = 0x0400000000000008"
  "load64 heap7 0x1020 = 0x0500000000000008" "load64 heap7 0x1028 = 8"
  "load64 heap7 0x2000 = 0xAAA0" "load64 heap7 0x2010 = 0xBBB0"
  by (simp_all add: heap7_def heap_eval)

text \<open>
  Claim C6. When the layout string of the metadata lists \<open>N\<close> managed fields and then
  \<open>End\<close>, and no external call writes into the layout string, \<^verbatim>\<open>swift_generic_destroy\<close>
  returns (with any fuel above \<open>N\<close>) after exactly the \<open>N\<close> release calls of the spec: one
  per entry, in the order of the entries, each at the cumulative offset of its entry, and
  nothing else.
\<close>

theorem destroy_exact_fan_out:
  assumes "list_all (managed (objc_interop E)) es"
    and "words_at (heap st) (md_layoutString E md + layoutStringHeaderSize) (layout_words es s)"
    and "frame E (md_layoutString E md + layoutStringHeaderSize) (8 * length (layout_words es s))"
    and "length es < fuel"
  shows "(let calls = handler_calls E (DestroyHandler a) md (md_layoutString E md) es
                        layoutStringHeaderSize 0 (heap st)
          in swift_generic_destroy fuel E a md st = (Returns (), emits E calls st)
             \<and> length calls = length es \<and> list_all release_call calls)"
proof -
  from assms(4) obtain k where k: "fuel = Suc (length es + k)"
    by (metis less_iff_Suc_add)
  from assms(1) have h: "list_all (handled E (DestroyHandler a)) es"
    by (simp add: list_all_iff managed_handled)
  from handler_loop [OF h assms(2) assms(3), of k md 0] managed_calls [OF assms(1)] k
  show ?thesis
    by (simp add: swift_generic_destroy_def handleRefCounts_def Let_def)
qed

theorem destroy_exact_fan_out_witness:
  "list_all (managed (objc_interop env0))
     [Ref kind_NativeStrong 0, Ref kind_NativeWeak 8, Ref kind_Unknown 8] \<and>
   words_at heap7 (md_layoutString env0 0 + layoutStringHeaderSize)
     (layout_words [Ref kind_NativeStrong 0, Ref kind_NativeWeak 8, Ref kind_Unknown 8] 8) \<and>
   swift_generic_destroy 4 env0 0x2000 0 \<lparr>heap = heap7, trace = []\<rparr> =
     (Returns (),
      \<lparr>heap = heap7,
       trace = [Call swift_release [0xAAA0], Call swift_weakDestroy [0x2008],
                Call swift_unknownObjectRelease [0xBBB0]]\<rparr>)"
proof -
  let ?es = "[Ref kind_NativeStrong 0, Ref kind_NativeWeak 8, Ref kind_Unknown 8]"
  have m: "list_all (managed (objc_interop env0)) ?es"
    by (simp add: env0_def native_of_def destroyTable_def kind_defs)
  have w: "words_at (heap \<lparr>heap = heap7, trace = []\<rparr>) (md_layoutString env0 0 + layoutStringHeaderSize)
      (layout_words ?es 8)"
    by (simp add: env0_def layoutStringHeaderSize_def layout_words_def entry_word_def kind_defs
          heap7_words)
  have f: "frame env0 (md_layoutString env0 0 + layoutStringHeaderSize)
      (8 * length (layout_words ?es 8))"
    by (rule frame_env0)
  have l: "length ?es < (4::nat)" by simp
  from destroy_exact_fan_out [OF m w f l, of "0x2000"] m w heap7_words show ?thesis
    by (simp add: Let_def env0_def native_of_def destroyTable_def kind_defs emit_def)
qed

subsection \<open>Copy-initialisation\<close>

lemma length_read_bytes [simp]: "length (read_bytes h p n) = n"
  by (simp add: read_bytes_def)

lemma copy_handler_loop:
  assumes "list_all (handled E (CopyHandler dest src)) es"
    and "words_at (heap st1) (md_layoutString E md + layoutStringHeaderSize) (layout_words es s)"
    and "frame E (md_layoutString E md + layoutStringHeaderSize) (8 * length (layout_words es s))"
    and "length es < fuel"
  shows "handleRefCounts 0 fuel E (CopyHandler dest src) md st1 =
     (Returns (), emits E (handler_calls E (CopyHandler dest src) md (md_layoutString E md) es
        layoutStringHeaderSize 0 (heap st1)) st1)"
proof -
  from assms(4) obtain k where k: "fuel = Suc (length es + k)"
    by (metis less_iff_Suc_add)
  from handler_loop [OF assms(1) assms(2) assms(3), of k md 0] k
  show ?thesis by (simp add: handleRefCounts_def Let_def)
qed

lemma rb: "read_bytes heap0 0x2000 16 = [0xA0, 0xAA, 0, 0, 0, 0, 0, 0, 0, 0, 0, 0, 0, 0, 0, 0]"
  by (simp add: read_bytes_def heap0_def write_bytes_def bytes64_def upt_rec unat_m1)




subsection \<open>Take-initialisation\<close>

lemma run_of_takeIfNotBitwiseTakable:
  "run_of E take_event st (takeIfNotBitwiseTakable E ty dest src aoff st)"
  by (simp add: takeIfNotBitwiseTakable_def run_of_emit run_of_refl)

lemma run_of_initWithTake_step:
  "run_of E take_event st
     (snd (snd (snd (initWithTake_step E dest src metadata typeLayout offset addrOffset st))))"
proof -
  define w where "w = load64 (heap st) (typeLayout + offset)"
  define a1 where "a1 = addrOffset + entry_skip w"
  consider (Weak) "entry_tag w = kind_UnknownWeak"
    | (Meta) "entry_tag w \<noteq> kind_UnknownWeak" "entry_tag w = kind_Metatype"
    | (Exist) "entry_tag w \<noteq> kind_UnknownWeak" "entry_tag w \<noteq> kind_Metatype"
        "entry_tag w = kind_Existential"
    | (Resil) "entry_tag w \<noteq> kind_UnknownWeak" "entry_tag w \<noteq> kind_Metatype"
        "entry_tag w \<noteq> kind_Existential" "entry_tag w = kind_Resilient"
    | (Other) "entry_tag w \<noteq> kind_UnknownWeak" "entry_tag w \<noteq> kind_Metatype"
        "entry_tag w \<noteq> kind_Existential" "entry_tag w \<noteq> kind_Resilient"
    by blast
  then show ?thesis
  proof cases
    case Weak
    then show ?thesis
      by (simp add: initWithTake_step_def Let_def readBytes_def w_def run_of_emit)
  next
    case Meta
    then show ?thesis
      by (simp add: initWithTake_step_def Let_def readBytes_def w_def run_of_takeIfNotBitwiseTakable)
  next
    case Exist
    then show ?thesis
      by (simp add: initWithTake_step_def Let_def readBytes_def w_def run_of_takeIfNotBitwiseTakable)
  next
    case Resil
    obtain ty o2 st1 where g: "getResilientTypeMetadata E metadata typeLayout (offset + 8) st = (ty, o2, st1)"
      by (cases "getResilientTypeMetadata E metadata typeLayout (offset + 8) st") auto
    from run_of_getResilient [of take_event E st metadata typeLayout "offset + 8"] g
    have "run_of E take_event st st1" by simp
    then have "run_of E take_event st (takeIfNotBitwiseTakable E ty dest src a1 st1)"
      by (rule run_of_trans) (rule run_of_takeIfNotBitwiseTakable)
    with Resil g show ?thesis
      by (simp add: initWithTake_step_def Let_def readBytes_def w_def a1_def)
  next
    case Other
    then show ?thesis
      by (simp add: initWithTake_step_def Let_def readBytes_def w_def run_of_refl
            split: sum.splits prod.splits)
  qed
qed

lemma take_step_other:
  assumes "entry_tag (load64 (heap st) (L + offset)) \<noteq> kind_UnknownWeak"
    and "entry_tag (load64 (heap st) (L + offset)) \<noteq> kind_Metatype"
    and "entry_tag (load64 (heap st) (L + offset)) \<noteq> kind_Existential"
    and "entry_tag (load64 (heap st) (L + offset)) \<noteq> kind_Resilient"
  shows "snd (snd (snd (initWithTake_step E dest src md L offset aoff st))) = st"
  using assms
  by (simp add: initWithTake_step_def Let_def readBytes_def split: sum.splits prod.splits)

lemma take_handler_loop:
  assumes "\<not> md_bitwiseTakable E md"
    and "list_all take_handled es"
    and "words_at (heap (memcpy E dest src (md_size E md) st)) (md_layoutString E md + layoutStringHeaderSize)
           (layout_words es s)"
    and "frame E (md_layoutString E md + layoutStringHeaderSize) (8 * length (layout_words es s))"
    and "length es < fuel"
  shows "swift_generic_initWithTake fuel E dest src md st =
     (Returns dest,
      emits E (take_calls E dest src md (md_layoutString E md) es layoutStringHeaderSize 0
                 (heap (memcpy E dest src (md_size E md) st)))
        (memcpy E dest src (md_size E md) st))"
proof -
  from assms(5) obtain k where k: "fuel = Suc (length es + k)"
    by (metis less_iff_Suc_add)
  from take_loop [OF assms(2) assms(3) assms(4), of k dest src md 0] k assms(1)
  show ?thesis by (simp add: swift_generic_initWithTake_def Let_def del: while_loop.simps)
qed

lemma run_of_initWithTake:
  "run_of E take_event (memcpy E dest src (md_size E md) st)
     (snd (swift_generic_initWithTake fuel E dest src md st))"
  by (simp add: swift_generic_initWithTake_def Let_def run_of_refl snd_returning
        run_of_while_loop run_of_initWithTake_step)

lemma take_not_refcount: "take_event e \<Longrightarrow> \<not> refcount_event e"
proof (cases e)
  case (Call f args)
  assume "take_event e"
  with Call show ?thesis by (cases f) auto
qed simp

lemma rb1: "read_bytes heap1 0x2000 16 = [0, 0, 0, 0, 0, 0, 0, 0, 0, 0, 0, 0, 0, 0, 0, 0]"
  by (simp add: read_bytes_def heap1_def write_bytes_def bytes64_def upt_rec unat_m1)



text \<open>
  Claim C3. Whatever the layout string, the memory and the fuel, no event of
  \<^verbatim>\<open>swift_generic_initWithTake\<close> is a call of a release or retain function: it calls
  no function of \<open>destroyTable\<close> or \<open>retainTable\<close> (every external function of the two
  tables is a release or retain function), no destroy witness and no copy witness.
\<close>

theorem initWithTake_no_retain_release:
  "list_all (\<lambda>e. \<not> refcount_event e)
     (new_events st (snd (swift_generic_initWithTake fuel E dest src md st)))
   \<and> list_all refcount_row (destroyTable objc @ retainTable objc)"
proof -
  let ?bulk = "Wr dest (read_bytes (heap st) src (unat (md_size E md)))"
  let ?st1 = "memcpy E dest src (md_size E md) st"
  let ?st2 = "snd (swift_generic_initWithTake fuel E dest src md st)"
  have t1: "trace ?st1 = trace st @ [?bulk]"
    by (simp add: memcpy_def emit_def)
  from run_of_initWithTake [of E dest src md st fuel]
  have t2: "trace ?st2 = trace ?st1 @ new_events ?st1 ?st2"
    and p: "list_all take_event (new_events ?st1 ?st2)"
    by (simp_all add: run_of_def)
  from t1 t2 have "new_events st ?st2 = [?bulk] @ new_events ?st1 ?st2"
    by (rule new_events_append)
  moreover from p have "list_all (\<lambda>e. \<not> refcount_event e) (new_events ?st1 ?st2)"
    by (auto simp: list_all_iff dest: take_not_refcount)
  ultimately have "list_all (\<lambda>e. \<not> refcount_event e) (new_events st ?st2)"
    by simp
  moreover have "list_all refcount_row (destroyTable objc @ retainTable objc)"
    by (simp add: destroyTable_def retainTable_def)
  ultimately show ?thesis by simp
qed

subsection \<open>The enum payload classifier\<close>

lemma ucast_byte_eq_0: "(ucast (b :: 8 word) :: 64 word) = 0 \<longleftrightarrow> b = 0"
proof
  assume z: "(ucast b :: 64 word) = 0"
  show "b = 0"
  proof (rule bit_eqI)
    fix n assume "possible_bit TYPE(8 word) n"
    then have n: "n < 8" by simp
    then have "bit b n = bit (ucast b :: 64 word) n"
      by (simp add: bit_simps)
    with z show "bit b n = bit (0 :: 8 word) n" by simp
  qed
qed simp

lemma enum_no_payload_cursor:
  "noPayload h L (offset + 32) aoff =
     (offset + 48 + load64 h (L + (offset + 32)), aoff + load64 h (L + (offset + 40)))"
  by (simp add: noPayload_def readBytes_def Let_def add.assoc)

lemma load64_agree:
  assumes "\<forall>k<48. h2 (p + of_nat k) = h1 (p + of_nat k)" and "j < 6"
  shows "load64 h2 (p + of_nat (8 * j)) = load64 h1 (p + of_nat (8 * j))"
proof (rule load64_cong)
  fix k :: nat
  assume "k < 8"
  with assms(2) have "8 * j + k < 48" by simp
  with assms(1) have "h2 (p + of_nat (8 * j + k)) = h1 (p + of_nat (8 * j + k))" by blast
  then show "h2 (p + of_nat (8 * j) + of_nat k) = h1 (p + of_nat (8 * j) + of_nat k)"
    by (simp add: add.assoc)
qed

lemma enum_extra_tag_nonzero:
  assumes "extraTagBytesPattern (load64 h (L + offset)) = 1"
    and "h (a + aoff + load64 h (L + (offset + 8))) \<noteq> 0"
  shows "handleSinglePayloadEnumSimple h L offset a aoff =
     Inr (False, offset + 48 + load64 h (L + (offset + 32)), aoff + load64 h (L + (offset + 40)))"
  using assms enum_no_payload_cursor [of h L offset aoff]
  by (simp add: handleSinglePayloadEnumSimple_def readBytes_def Let_def readTagBytes_def
        ucast_byte_eq_0 add.assoc)

text \<open>
  Claim C4, as the code has it. When both patterns of a \<open>SinglePayloadEnumSimple\<close> entry
  are zero, \<^verbatim>\<open>handleSinglePayloadEnumSimple\<close> leaves through the block at
  \<^verbatim>\<open>noPayload\<close>: it reads the pair \<open>refCountBytes\<close>, \<open>skip\<close> behind the 32 bytes of
  parameters, moves the cursor over the entries of the payload and the address offset over
  the enum. The traversal does not visit the payload's entries.
\<close>

theorem enum_without_discriminator_skips_payload:
  assumes "extraTagBytesPattern (load64 h (L + offset)) = 0"
    and "xiTagBytesPattern (load64 h (L + offset)) = 0"
  shows "handleSinglePayloadEnumSimple h L offset a aoff =
     Inr (False, offset + 48 + load64 h (L + (offset + 32)), aoff + load64 h (L + (offset + 40)))"
  using assms enum_no_payload_cursor [of h L offset aoff]
  by (simp add: handleSinglePayloadEnumSimple_def enumExtraInhabitants_def readBytes_def Let_def
        add.assoc)

theorem enum_without_discriminator_skips_payload_witness:
  "extraTagBytesPattern (load64 heap2 (0x1000 + 24)) = 0 \<and>
   xiTagBytesPattern (load64 heap2 (0x1000 + 24)) = 0 \<and>
   handleSinglePayloadEnumSimple heap2 0x1000 24 0x2000 16 = Inr (False, 80, 24)"
proof -
  have b: "load64 heap2 0x1018 = 0" "load64 heap2 0x1038 = 8" "load64 heap2 0x1040 = 8"
    by (simp_all add: heap2_def heap_eval)
  have x: "extraTagBytesPattern (load64 heap2 (0x1000 + 24)) = 0"
    and y: "xiTagBytesPattern (load64 heap2 (0x1000 + 24)) = 0"
    using b by (simp_all add: extraTagBytesPattern_def xiTagBytesPattern_def)
  from enum_without_discriminator_skips_payload [OF x y, of "0x2000" 16] x y b
  show ?thesis by simp
qed

text \<open>
  Claim C4, as the spec states it, fails: on \<open>heap2\<close> both patterns are zero, the
  classifier leaves through \<^verbatim>\<open>noPayload\<close> with the cursor behind the payload's entry,
  and \<^verbatim>\<open>swift_generic_destroy\<close> returns without releasing the reference of the payload.
\<close>

theorem enum_without_discriminator_counterexample:
  "extraTagBytesPattern (load64 heap2 (0x1000 + 24)) = 0 \<and>
   xiTagBytesPattern (load64 heap2 (0x1000 + 24)) = 0 \<and>
   handleSinglePayloadEnumSimple heap2 0x1000 24 0x2000 0 = Inr (False, 80, 8) \<and>
   swift_generic_destroy 2 env0 0x2000 0 \<lparr>heap = heap2, trace = []\<rparr> =
     (Returns (), \<lparr>heap = heap2, trace = []\<rparr>)"
proof -
  have b: "load64 heap2 0x1018 = 0" "load64 heap2 0x1038 = 8" "load64 heap2 0x1040 = 8"
    "load64 heap2 0x1010 = 0x1000000000000000" "load64 heap2 0x1050 = 0"
    by (simp_all add: heap2_def heap_eval)
  have e: "handleSinglePayloadEnumSimple heap2 0x1000 24 0x2000 0 = Inr (False, 80, 8)"
    using b
    by (simp add: handleSinglePayloadEnumSimple_def enumExtraInhabitants_def noPayload_def
          readBytes_def Let_def extraTagBytesPattern_def xiTagBytesPattern_def)
  let ?st = "\<lparr>heap = heap2, trace = []\<rparr>"
  have s1: "handleNextRefCount env0 (DestroyHandler 0x2000) 0 0x1000 16 0 ?st =
      (Returns True, 80, 8, ?st)"
    using b e
    by (simp add: handleNextRefCount_def Let_def readBytes_def entry_tag_def entry_skip_def
          kind_defs)
  have s2: "handleNextRefCount env0 (DestroyHandler 0x2000) 0 0x1000 80 8 ?st =
      (Returns False, 88, 8, ?st)"
    using b
    by (simp add: handleNextRefCount_def Let_def readBytes_def entry_tag_def entry_skip_def
          kind_defs)
  have "while_loop (Suc (Suc 0)) (handleNextRefCount env0 (DestroyHandler 0x2000) 0 0x1000) 16 0 ?st =
      (Returns (), ?st)"
    by (simp add: s1 s2)
  then have d: "swift_generic_destroy 2 env0 0x2000 0 ?st = (Returns (), ?st)"
    by (simp add: swift_generic_destroy_def handleRefCounts_def Let_def env0_def
          layoutStringHeaderSize_def numeral_2_eq_2)
  from b e d show ?thesis
    by (simp add: extraTagBytesPattern_def xiTagBytesPattern_def)
qed

text \<open>
  Claim C5. Two runs of the classifier on the same entry with one extra tag byte
  (\<open>extraTagBytesPattern = 1\<close>), on memories that agree on the 48 bytes of the entry and
  both hold a nonzero tag byte behind the payload: both leave through \<^verbatim>\<open>noPayload\<close>, with
  the same cursor and the same address offset.
\<close>

theorem enum_extra_tag_byte_stable:
  assumes "\<forall>k<48. h2 (L + offset + of_nat k) = h1 (L + offset + of_nat k)"
    and "extraTagBytesPattern (load64 h1 (L + offset)) = 1"
    and "h1 (a + aoff + load64 h1 (L + (offset + 8))) \<noteq> 0"
    and "h2 (a + aoff + load64 h1 (L + (offset + 8))) \<noteq> 0"
  shows "handleSinglePayloadEnumSimple h1 L offset a aoff =
           Inr (False, offset + 48 + load64 h1 (L + (offset + 32)),
                aoff + load64 h1 (L + (offset + 40)))
       \<and> handleSinglePayloadEnumSimple h2 L offset a aoff =
           handleSinglePayloadEnumSimple h1 L offset a aoff"
proof -
  from load64_agree [OF assms(1), of 0] have e0: "load64 h2 (L + offset) = load64 h1 (L + offset)"
    by simp
  from load64_agree [OF assms(1), of 1]
  have e1: "load64 h2 (L + (offset + 8)) = load64 h1 (L + (offset + 8))"
    by (simp add: add.assoc)
  from load64_agree [OF assms(1), of 4]
  have e4: "load64 h2 (L + (offset + 32)) = load64 h1 (L + (offset + 32))"
    by (simp add: add.assoc)
  from load64_agree [OF assms(1), of 5]
  have e5: "load64 h2 (L + (offset + 40)) = load64 h1 (L + (offset + 40))"
    by (simp add: add.assoc)
  have one: "handleSinglePayloadEnumSimple h1 L offset a aoff =
      Inr (False, offset + 48 + load64 h1 (L + (offset + 32)), aoff + load64 h1 (L + (offset + 40)))"
    using assms(2,3) by (rule enum_extra_tag_nonzero)
  have "handleSinglePayloadEnumSimple h2 L offset a aoff =
      Inr (False, offset + 48 + load64 h2 (L + (offset + 32)), aoff + load64 h2 (L + (offset + 40)))"
    using assms(2,4) by (intro enum_extra_tag_nonzero) (simp_all add: e0 e1)
  with one e4 e5 show ?thesis by simp
qed


theorem enum_extra_tag_byte_stable_witness:
  "extraTagBytesPattern (load64 heap3 (0x1000 + 24)) = 1 \<and>
   heap3 0x2008 = 1 \<and> (heap3(0x2008 := 2)) 0x2008 = 2 \<and>
   handleSinglePayloadEnumSimple heap3 0x1000 24 0x2000 0 = Inr (False, 80, 9) \<and>
   handleSinglePayloadEnumSimple (heap3(0x2008 := 2)) 0x1000 24 0x2000 0 = Inr (False, 80, 9)"
proof -
  have b: "load64 heap3 0x1018 = 0x4000000000000000" "load64 heap3 0x1020 = 8"
    "load64 heap3 0x1038 = 8" "load64 heap3 0x1040 = 9" "heap3 0x2008 = 1"
    by (simp_all add: heap3_def heap_eval)
  have x: "extraTagBytesPattern (load64 heap3 (0x1000 + 24)) = 1"
    using b by (simp add: extraTagBytesPattern_def)
  have same: "\<forall>k<48. (heap3(0x2008 := 2)) (0x1000 + 24 + of_nat k) = heap3 (0x1000 + 24 + of_nat k)"
  proof (intro allI impI)
    fix k :: nat
    assume k: "k < 48"
    have "(0x1000 + 24 + of_nat k :: 64 word) \<noteq> 0x2008"
    proof
      assume "(0x1000 + 24 + of_nat k :: 64 word) = 0x2008"
      then have "(of_nat k :: 64 word) = 0x2008 - (0x1000 + 24)"
        by (simp add: algebra_simps)
      then have "unat (of_nat k :: 64 word) = unat (0xFF0 :: 64 word)" by simp
      moreover from k have "unat (of_nat k :: 64 word) = k"
        by (simp add: unat_of_nat)
      ultimately show False using k by simp
    qed
    then show "(heap3(0x2008 := 2)) (0x1000 + 24 + of_nat k) = heap3 (0x1000 + 24 + of_nat k)"
      by simp
  qed
  have t1: "heap3 (0x2000 + 0 + load64 heap3 (0x1000 + (24 + 8))) \<noteq> 0"
    using b by simp
  have t2: "(heap3(0x2008 := 2)) (0x2000 + 0 + load64 heap3 (0x1000 + (24 + 8))) \<noteq> 0"
    using b by simp
  from enum_extra_tag_byte_stable [OF same x t1 t2]
  have r1: "handleSinglePayloadEnumSimple heap3 0x1000 24 0x2000 0 =
      Inr (False, 24 + 48 + load64 heap3 (0x1000 + (24 + 32)), 0 + load64 heap3 (0x1000 + (24 + 40)))"
    and r2: "handleSinglePayloadEnumSimple (heap3(0x2008 := 2)) 0x1000 24 0x2000 0 =
      handleSinglePayloadEnumSimple heap3 0x1000 24 0x2000 0"
    by blast+
  from r1 b have r3: "handleSinglePayloadEnumSimple heap3 0x1000 24 0x2000 0 = Inr (False, 80, 9)"
    by simp
  from r2 r3 have r4: "handleSinglePayloadEnumSimple (heap3(0x2008 := 2)) 0x1000 24 0x2000 0 =
      Inr (False, 80, 9)"
    by (rule trans)
  from x b(5) r3 r4 show ?thesis by simp
qed

subsection \<open>Assignment\<close>

lemma extends_run_of: "run_of E P st st' \<Longrightarrow> extends st st'"
  by (simp add: run_of_def extends_def)

lemma extends_trans: "extends st st1 \<Longrightarrow> extends st1 st2 \<Longrightarrow> extends st st2"
  unfolding extends_def new_events_def
  by (metis append.assoc append_eq_conv_conj)

lemma new_events_extends:
  "extends st st1 \<Longrightarrow> extends st1 st2 \<Longrightarrow> new_events st st2 = new_events st st1 @ new_events st1 st2"
  unfolding extends_def by (rule new_events_append)

lemma extends_emit: "extends st (emit E e st)"
  by (simp add: extends_def new_events_def emit_def)

lemma extends_destroy: "extends st (snd (swift_generic_destroy fuel E a md st))"
  unfolding swift_generic_destroy_def
  by (rule extends_run_of) (rule run_of_handleRefCounts)

lemma extends_initWithCopy: "extends st (snd (swift_generic_initWithCopy fuel E dest src md st))"
proof -
  have "extends (memcpy E dest src (md_size E md) st)
      (snd (swift_generic_initWithCopy fuel E dest src md st))"
    by (simp add: swift_generic_initWithCopy_def Let_def snd_returning
          extends_run_of [OF run_of_handleRefCounts])
  moreover have "extends st (memcpy E dest src (md_size E md) st)"
    by (simp add: memcpy_def extends_emit)
  ultimately show ?thesis by (rule extends_trans [rotated])
qed

lemma extends_initWithTake: "extends st (snd (swift_generic_initWithTake fuel E dest src md st))"
proof -
  have "extends (memcpy E dest src (md_size E md) st)
      (snd (swift_generic_initWithTake fuel E dest src md st))"
    by (rule extends_run_of) (rule run_of_initWithTake)
  moreover have "extends st (memcpy E dest src (md_size E md) st)"
    by (simp add: memcpy_def extends_emit)
  ultimately show ?thesis by (rule extends_trans [rotated])
qed

lemma fst_initWithCopy: "fst (swift_generic_initWithCopy fuel E dest src md st) = Returns r \<Longrightarrow> r = dest"
  by (simp add: swift_generic_initWithCopy_def Let_def fst_returning)

lemma fst_initWithTake: "fst (swift_generic_initWithTake fuel E dest src md st) = Returns r \<Longrightarrow> r = dest"
  by (auto simp: swift_generic_initWithTake_def Let_def fst_returning split: if_splits)

lemma followed_by_Returns:
  "first st = (Returns u, st1) \<Longrightarrow> followed_by first second st = second st1"
  by (simp add: followed_by_def)

lemma fst_followed_by:
  assumes "fst (followed_by first second st) = Returns r"
  shows "fst (first st) = Returns () \<and> fst (second (snd (first st))) = Returns r"
proof (cases "first st")
  case (Pair out st1)
  with assms show ?thesis by (cases out) (auto simp: followed_by_def)
qed

lemma destroy_handler_loop:
  assumes "list_all (handled E (DestroyHandler a)) es"
    and "words_at (heap st) (md_layoutString E md + layoutStringHeaderSize) (layout_words es s)"
    and "frame E (md_layoutString E md + layoutStringHeaderSize) (8 * length (layout_words es s))"
    and "length es < fuel"
  shows "swift_generic_destroy fuel E a md st =
     (Returns (), emits E (handler_calls E (DestroyHandler a) md (md_layoutString E md) es
        layoutStringHeaderSize 0 (heap st)) st)"
proof -
  from assms(4) obtain k where k: "fuel = Suc (length es + k)"
    by (metis less_iff_Suc_add)
  from handler_loop [OF assms(1) assms(2) assms(3), of k md 0] k
  show ?thesis by (simp add: swift_generic_destroy_def handleRefCounts_def Let_def)
qed

lemma heap0_words:
  "load64 heap0 0x1010 = 0x0200000000000000" "load64 heap0 0x1018 = 8"
  "load64 heap0 0x2000 = 0xAAA0" "load64 heap0 0x2100 = 0"
  by (simp_all add: heap0_def heap_eval)

lemma heap0_copied_words:
  "load64 (write_bytes heap0 0x2100 (read_bytes heap0 0x2000 16)) 0x1010 = 0x0200000000000000"
  "load64 (write_bytes heap0 0x2100 (read_bytes heap0 0x2000 16)) 0x1018 = 8"
  "load64 (write_bytes heap0 0x2100 (read_bytes heap0 0x2000 16)) 0x2100 = 0xAAA0"
  unfolding rb by (simp_all add: heap0_def heap_eval)

lemma example_destroy:
  "swift_generic_destroy 2 env0 0x2100 0 \<lparr>heap = heap0, trace = t\<rparr> =
     (Returns (), \<lparr>heap = heap0, trace = t @ [Call swift_release [0]]\<rparr>)"
proof -
  let ?es = "[Ref kind_NativeStrong 0]"
  have m: "list_all (handled env0 (DestroyHandler 0x2100)) ?es"
    by (simp add: env0_def native_of_def destroyTable_def kind_defs)
  have w: "words_at (heap \<lparr>heap = heap0, trace = t\<rparr>)
      (md_layoutString env0 0 + layoutStringHeaderSize) (layout_words ?es 8)"
    by (simp add: env0_def layoutStringHeaderSize_def layout_words_def entry_word_def kind_defs
          heap0_words)
  have f: "frame env0 (md_layoutString env0 0 + layoutStringHeaderSize)
      (8 * length (layout_words ?es 8))"
    by (rule frame_env0)
  from destroy_handler_loop [OF m w f, where fuel = 2] heap0_words show ?thesis
    by (simp add: Let_def env0_def native_of_def destroyTable_def kind_defs emit_def)
qed

lemma example_initWithCopy:
  "swift_generic_initWithCopy 2 env0 0x2100 0x2000 0 \<lparr>heap = heap0, trace = t\<rparr> =
     (Returns 0x2100,
      \<lparr>heap = write_bytes heap0 0x2100 (read_bytes heap0 0x2000 16),
       trace = t @ [Wr 0x2100 (read_bytes heap0 0x2000 16), Call swift_retain [0xAAA0]]\<rparr>)"
proof -
  let ?es = "[Ref kind_NativeStrong 0]"
  let ?st1 = "memcpy env0 0x2100 0x2000 (md_size env0 0) \<lparr>heap = heap0, trace = t\<rparr>"
  have h1: "heap ?st1 = write_bytes heap0 0x2100 (read_bytes heap0 0x2000 16)"
    by (simp add: memcpy_def env0_def)
  have m: "list_all (handled env0 (CopyHandler 0x2100 0x2000)) ?es"
    by (simp add: env0_def native_of_def retainTable_def kind_defs)
  have w: "words_at (heap ?st1) (md_layoutString env0 0 + layoutStringHeaderSize) (layout_words ?es 8)"
    unfolding h1
    by (simp add: env0_def layoutStringHeaderSize_def layout_words_def entry_word_def kind_defs
          heap0_copied_words)
  have f: "frame env0 (md_layoutString env0 0 + layoutStringHeaderSize)
      (8 * length (layout_words ?es 8))"
    by (rule frame_env0)
  have "handleRefCounts 0 2 env0 (CopyHandler 0x2100 0x2000) 0 ?st1 =
      (Returns (), \<lparr>heap = write_bytes heap0 0x2100 (read_bytes heap0 0x2000 16),
         trace = t @ [Wr 0x2100 (read_bytes heap0 0x2000 16), Call swift_retain [0xAAA0]]\<rparr>)"
    using copy_handler_loop [OF m w f, where fuel = 2] heap0_copied_words unfolding h1
    by (simp add: Let_def memcpy_def env0_def native_of_def retainTable_def kind_defs emit_def)
  then show ?thesis
    by (simp add: swift_generic_initWithCopy_def Let_def)
qed

lemma example_initWithTake:
  "swift_generic_initWithTake 2 env0 0x2100 0x2000 0 \<lparr>heap = heap0, trace = t\<rparr> =
     (Returns 0x2100,
      \<lparr>heap = write_bytes heap0 0x2100 (read_bytes heap0 0x2000 16),
       trace = t @ [Wr 0x2100 (read_bytes heap0 0x2000 16)]\<rparr>)"
proof -
  let ?es = "[Ref kind_NativeStrong 0]"
  let ?st = "\<lparr>heap = heap0, trace = t\<rparr>"
  let ?st1 = "memcpy env0 0x2100 0x2000 (md_size env0 0) ?st"
  have h1: "heap ?st1 = write_bytes heap0 0x2100 (read_bytes heap0 0x2000 16)"
    by (simp add: memcpy_def env0_def)
  have n: "\<not> md_bitwiseTakable env0 0"
    by (simp add: env0_def)
  have m: "list_all take_handled ?es"
    by (simp add: kind_defs)
  have w: "words_at (heap ?st1) (md_layoutString env0 0 + layoutStringHeaderSize) (layout_words ?es 8)"
    unfolding h1
    by (simp add: env0_def layoutStringHeaderSize_def layout_words_def entry_word_def kind_defs
          heap0_copied_words)
  have f: "frame env0 (md_layoutString env0 0 + layoutStringHeaderSize)
      (8 * length (layout_words ?es 8))"
    by (rule frame_env0)
  from take_handler_loop [OF n m w f, where fuel = 2] show ?thesis
    by (simp add: Let_def memcpy_def env0_def kind_defs emit_def take_ref_calls_def)
qed

text \<open>
  Claim C7. \<^verbatim>\<open>swift_generic_assignWithCopy\<close> is \<^verbatim>\<open>swift_generic_destroy\<close> on \<open>dest\<close>
  followed by \<^verbatim>\<open>swift_generic_initWithCopy\<close>, and \<^verbatim>\<open>swift_generic_assignWithTake\<close> is the
  destroy followed by \<^verbatim>\<open>swift_generic_initWithTake\<close>: the same outcome, the same memory
  and the same events, those of the destroy and then those of the initialisation on the
  state the destroy left. An assignment that returns, returns \<open>dest\<close>.
\<close>

theorem assign_is_destroy_then_init:
  "(let destroy = swift_generic_destroy fuel E dest md;
        copy = swift_generic_initWithCopy fuel E dest src md;
        take = swift_generic_initWithTake fuel E dest src md;
        st1 = snd (destroy st)
    in swift_generic_assignWithCopy fuel E dest src md st = followed_by destroy copy st
     \<and> swift_generic_assignWithTake fuel E dest src md st = followed_by destroy take st
     \<and> (\<forall>r. fst (swift_generic_assignWithCopy fuel E dest src md st) = Returns r \<longrightarrow> r = dest)
     \<and> (\<forall>r. fst (swift_generic_assignWithTake fuel E dest src md st) = Returns r \<longrightarrow> r = dest)
     \<and> (fst (destroy st) = Returns () \<longrightarrow>
          swift_generic_assignWithCopy fuel E dest src md st = copy st1
        \<and> swift_generic_assignWithTake fuel E dest src md st = take st1
        \<and> new_events st (snd (swift_generic_assignWithCopy fuel E dest src md st)) =
            new_events st st1 @ new_events st1 (snd (copy st1))
        \<and> new_events st (snd (swift_generic_assignWithTake fuel E dest src md st)) =
            new_events st st1 @ new_events st1 (snd (take st1))))"
proof -
  let ?destroy = "swift_generic_destroy fuel E dest md"
  let ?copy = "swift_generic_initWithCopy fuel E dest src md"
  let ?take = "swift_generic_initWithTake fuel E dest src md"
  let ?st1 = "snd (?destroy st)"
  have c: "swift_generic_assignWithCopy fuel E dest src md st = followed_by ?destroy ?copy st"
    by (simp add: swift_generic_assignWithCopy_def followed_by_def)
  have t: "swift_generic_assignWithTake fuel E dest src md st = followed_by ?destroy ?take st"
    by (simp add: swift_generic_assignWithTake_def followed_by_def)
  have rc: "\<forall>r. fst (followed_by ?destroy ?copy st) = Returns r \<longrightarrow> r = dest"
    by (auto dest!: fst_followed_by fst_initWithCopy)
  have rt: "\<forall>r. fst (followed_by ?destroy ?take st) = Returns r \<longrightarrow> r = dest"
    by (auto dest!: fst_followed_by fst_initWithTake)
  have seq: "fst (?destroy st) = Returns () \<longrightarrow>
      followed_by ?destroy ?copy st = ?copy ?st1 \<and> followed_by ?destroy ?take st = ?take ?st1"
    by (cases "?destroy st") (auto simp: followed_by_def)
  have ec: "new_events st (snd (?copy ?st1)) = new_events st ?st1 @ new_events ?st1 (snd (?copy ?st1))"
    by (rule new_events_extends) (rule extends_destroy, rule extends_initWithCopy)
  have et: "new_events st (snd (?take ?st1)) = new_events st ?st1 @ new_events ?st1 (snd (?take ?st1))"
    by (rule new_events_extends) (rule extends_destroy, rule extends_initWithTake)
  from c t rc rt seq ec et show ?thesis
    unfolding Let_def by simp
qed

theorem assign_is_destroy_then_init_witness:
  "swift_generic_destroy 2 env0 0x2100 0 \<lparr>heap = heap0, trace = []\<rparr> =
     (Returns (), \<lparr>heap = heap0, trace = [Call swift_release [0]]\<rparr>) \<and>
   swift_generic_assignWithCopy 2 env0 0x2100 0x2000 0 \<lparr>heap = heap0, trace = []\<rparr> =
     (Returns 0x2100,
      \<lparr>heap = write_bytes heap0 0x2100 (read_bytes heap0 0x2000 16),
       trace = [Call swift_release [0], Wr 0x2100 (read_bytes heap0 0x2000 16),
                Call swift_retain [0xAAA0]]\<rparr>) \<and>
   swift_generic_assignWithTake 2 env0 0x2100 0x2000 0 \<lparr>heap = heap0, trace = []\<rparr> =
     (Returns 0x2100,
      \<lparr>heap = write_bytes heap0 0x2100 (read_bytes heap0 0x2000 16),
       trace = [Call swift_release [0], Wr 0x2100 (read_bytes heap0 0x2000 16)]\<rparr>)"
proof -
  let ?st = "\<lparr>heap = heap0, trace = []\<rparr>"
  let ?st1 = "\<lparr>heap = heap0, trace = [Call swift_release [0]]\<rparr>"
  have d: "swift_generic_destroy 2 env0 0x2100 0 ?st = (Returns (), ?st1)"
    using example_destroy [of "[]"] by simp
  note T = assign_is_destroy_then_init [where E = env0 and fuel = 2 and dest = "0x2100"
      and src = "0x2000" and md = 0 and st = ?st, unfolded Let_def]
  from T have "fst (swift_generic_destroy 2 env0 0x2100 0 ?st) = Returns () \<longrightarrow>
      swift_generic_assignWithCopy 2 env0 0x2100 0x2000 0 ?st =
        swift_generic_initWithCopy 2 env0 0x2100 0x2000 0 (snd (swift_generic_destroy 2 env0 0x2100 0 ?st))
    \<and> swift_generic_assignWithTake 2 env0 0x2100 0x2000 0 ?st =
        swift_generic_initWithTake 2 env0 0x2100 0x2000 0 (snd (swift_generic_destroy 2 env0 0x2100 0 ?st))"
    by blast
  with d have c: "swift_generic_assignWithCopy 2 env0 0x2100 0x2000 0 ?st =
        swift_generic_initWithCopy 2 env0 0x2100 0x2000 0 ?st1"
    and t: "swift_generic_assignWithTake 2 env0 0x2100 0x2000 0 ?st =
        swift_generic_initWithTake 2 env0 0x2100 0x2000 0 ?st1"
    by simp_all
  from d c t show ?thesis
    by (simp add: example_initWithCopy example_initWithTake)
qed

subsection \<open>What the traversals write\<close>

lemma apply_event_outside:
  "callables_keep E a \<Longrightarrow> outside a e \<Longrightarrow> apply_event E e h a = h a"
  by (cases e) (simp_all add: callables_keep_def write_bytes_def)

lemma replay_outside:
  "callables_keep E a \<Longrightarrow> list_all (outside a) evs \<Longrightarrow> replay E evs h a = h a"
  by (induction evs arbitrary: h) (simp_all add: apply_event_outside)

lemma is_call_outside: "list_all is_call evs \<Longrightarrow> list_all (outside a) evs"
proof (induction evs)
  case (Cons e evs)
  then show ?case by (cases e) simp_all
qed simp

lemma destroy_event_is_call: "list_all destroy_event evs \<Longrightarrow> list_all is_call evs"
proof (induction evs)
  case (Cons e evs)
  then show ?case by (cases e) simp_all
qed simp

lemma take_event_is_call: "list_all take_event evs \<Longrightarrow> list_all is_call evs"
proof (induction evs)
  case (Cons e evs)
  then show ?case by (cases e) simp_all
qed simp

lemma copy_event_is_call: "\<not> objc_interop E \<Longrightarrow> list_all (copy_event E) evs \<Longrightarrow> list_all is_call evs"
proof (induction evs)
  case (Cons e evs)
  then show ?case by (cases e) simp_all
qed simp

lemma run_of_initWithCopy:
  "run_of E (copy_event E) (memcpy E dest src (md_size E md) st)
     (snd (swift_generic_initWithCopy fuel E dest src md st))"
  by (simp add: swift_generic_initWithCopy_def Let_def snd_returning run_of_handleRefCounts
        [of E "CopyHandler dest src", simplified])

lemma run_of_destroy:
  "run_of E destroy_event st (snd (swift_generic_destroy fuel E a md st))"
  using run_of_handleRefCounts [of E "DestroyHandler a" st 0 fuel md]
  by (simp add: swift_generic_destroy_def)

lemma after_bulk:
  assumes "run_of E P (emit E bulk st) st2"
  shows "new_events st st2 = bulk # new_events (emit E bulk st) st2"
proof -
  have "trace (emit E bulk st) = trace st @ [bulk]" by (simp add: emit_def)
  moreover from assms have "trace st2 = trace (emit E bulk st) @ new_events (emit E bulk st) st2"
    by (simp add: run_of_def)
  ultimately have "new_events st st2 = [bulk] @ new_events (emit E bulk st) st2"
    by (rule new_events_append)
  then show ?thesis by simp
qed

lemma heap_after_bulk:
  assumes "run_of E P (emit E bulk st) st2" and "callables_keep E a" and "outside a bulk"
    and "list_all (outside a) (new_events (emit E bulk st) st2)"
  shows "heap st2 a = heap st a"
proof -
  from assms(1) have "heap st2 = replay E (new_events (emit E bulk st) st2) (heap (emit E bulk st))"
    by (simp add: run_of_def)
  with assms(2,4) have "heap st2 a = heap (emit E bulk st) a"
    by (simp add: replay_outside del: heap_emit)
  with assms(2,3) show ?thesis by (simp add: apply_event_outside)
qed



subsection \<open>Reserved kinds\<close>

lemma null_row_special:
  "\<not> null_row (destroyTable objc) kind_End" "\<not> null_row (retainTable objc) kind_End"
  "\<not> null_row (destroyTable objc) kind_Resilient" "\<not> null_row (retainTable objc) kind_Resilient"
  "\<not> null_row (destroyTable objc) kind_SinglePayloadEnumSimple"
  "\<not> null_row (retainTable objc) kind_SinglePayloadEnumSimple"
  "\<not> null_row (destroyTable objc) kind_UnknownWeak" "\<not> null_row (retainTable objc) kind_UnknownWeak"
  "\<not> null_row (destroyTable objc) kind_Existential" "\<not> null_row (retainTable objc) kind_Existential"
  by (simp_all add: null_row_def destroyTable_def retainTable_def kind_defs)

lemma null_row_not_special:
  assumes "null_row (handler_table E H) tag"
  shows "tag \<noteq> kind_End" "tag \<noteq> kind_Resilient" "tag \<noteq> kind_SinglePayloadEnumSimple"
    "tag \<noteq> kind_UnknownWeak" "tag \<noteq> kind_Existential"
  using assms by (cases H; auto simp: null_row_special)+

lemma dispatch_null:
  "null_row table tag \<Longrightarrow> dispatch E table tag args st = (Some NullCallable, st)"
  by (auto simp: null_row_def dispatch_def split: prod.splits option.splits)

lemma handleReference_null:
  "null_row (handler_table E H) tag \<Longrightarrow> handleReference E H tag aoff st = (Some NullCallable, st)"
  by (cases H) (simp_all add: dispatch_null)

lemma heap4_words: "load64 heap4 0x1010 = 0x0B00000000000000" "load64 heap4 0x1018 = 0"
  by (simp_all add: heap4_def heap_eval)

lemma rb4: "read_bytes heap4 0x2000 16 = [0, 0, 0, 0, 0, 0, 0, 0, 0, 0, 0, 0, 0, 0, 0, 0]"
  by (simp add: read_bytes_def heap4_def write_bytes_def bytes64_def upt_rec unat_m1)

lemma heap4_copied_words:
  "load64 (write_bytes heap4 0x2100 (read_bytes heap4 0x2000 16)) 0x1010 = 0x0B00000000000000"
  "load64 (write_bytes heap4 0x2100 (read_bytes heap4 0x2000 16)) 0x1018 = 0"
  unfolding rb4 by (simp_all add: heap4_def heap_eval)

text \<open>
  Claim C9, as the code has it. In a destroy or a copy-initialisation, an entry whose tag
  has a null row in the table of the handler (and is not the ordinal of \<open>Metatype\<close>,
  which never reaches the table) ends the run at once: the call through the null pointer
  is fatal, no function is called and nothing is reported, and the loop started at such an
  entry dies there. Take-initialisation has no table: one turn of its loop on such an
  entry does nothing and goes on to the next entry.
\<close>

theorem null_callable_fatal_in_destroy_and_copy:
  assumes "null_row (handler_table E H) tag"
    and "tag \<noteq> kind_Metatype"
    and "entry_tag (load64 (heap st) (L + offset)) = tag"
  shows "handleNextRefCount E H md L offset aoff st =
           (Fatal NullCallable, offset + 8, aoff + entry_skip (load64 (heap st) (L + offset)), st)
       \<and> while_loop (Suc n) (handleNextRefCount E H md L) offset aoff st = (Fatal NullCallable, st)
       \<and> initWithTake_step E dest src md L offset aoff st =
           (Returns True, offset + 8, aoff + entry_skip (load64 (heap st) (L + offset)), st)"
proof -
  note ns = null_row_not_special [OF assms(1)]
  have a: "handleNextRefCount E H md L offset aoff st =
      (Fatal NullCallable, offset + 8, aoff + entry_skip (load64 (heap st) (L + offset)), st)"
    using assms ns
    by (simp add: handleNextRefCount_def readBytes_def Let_def handleReference_null)
  then have b: "while_loop (Suc n) (handleNextRefCount E H md L) offset aoff st = (Fatal NullCallable, st)"
    by simp
  have c: "initWithTake_step E dest src md L offset aoff st =
      (Returns True, offset + 8, aoff + entry_skip (load64 (heap st) (L + offset)), st)"
    using assms ns
    by (simp add: initWithTake_step_def readBytes_def Let_def)
  from a b c show ?thesis by simp
qed

theorem null_callable_fatal_in_destroy_and_copy_witness:
  "null_row (handler_table env0 (DestroyHandler 0x2000)) kind_Custom \<and>
   kind_Custom \<noteq> kind_Metatype \<and>
   entry_tag (load64 heap4 (0x1000 + 16)) = kind_Custom \<and>
   handleNextRefCount env0 (DestroyHandler 0x2000) 0 0x1000 16 0 \<lparr>heap = heap4, trace = []\<rparr> =
     (Fatal NullCallable, 24, 0, \<lparr>heap = heap4, trace = []\<rparr>) \<and>
   swift_generic_destroy 2 env0 0x2000 0 \<lparr>heap = heap4, trace = []\<rparr> =
     (Fatal NullCallable, \<lparr>heap = heap4, trace = []\<rparr>) \<and>
   initWithTake_step env0 0x2100 0x2000 0 0x1000 16 0 \<lparr>heap = heap4, trace = []\<rparr> =
     (Returns True, 24, 0, \<lparr>heap = heap4, trace = []\<rparr>)"
proof -
  let ?st = "\<lparr>heap = heap4, trace = []\<rparr>"
  have r: "null_row (handler_table env0 (DestroyHandler 0x2000)) kind_Custom"
    by (simp add: null_row_def env0_def destroyTable_def kind_defs)
  have m: "kind_Custom \<noteq> kind_Metatype"
    by (simp add: kind_defs)
  have t: "entry_tag (load64 (heap ?st) (0x1000 + 16)) = kind_Custom"
    by (simp add: heap4_words entry_tag_def kind_defs)
  have s: "entry_skip (load64 (heap ?st) (0x1000 + 16)) = 0"
    by (simp add: heap4_words entry_skip_def)
  from null_callable_fatal_in_destroy_and_copy [OF r m t, where md = 0 and aoff = 0 and n = 1
      and dest = "0x2100" and src = "0x2000"] s
  have a: "handleNextRefCount env0 (DestroyHandler 0x2000) 0 0x1000 16 0 ?st =
      (Fatal NullCallable, 24, 0, ?st)"
    and b: "while_loop (Suc 1) (handleNextRefCount env0 (DestroyHandler 0x2000) 0 0x1000) 16 0 ?st =
      (Fatal NullCallable, ?st)"
    and c: "initWithTake_step env0 0x2100 0x2000 0 0x1000 16 0 ?st = (Returns True, 24, 0, ?st)"
    by simp_all
  from b have d: "swift_generic_destroy 2 env0 0x2000 0 ?st = (Fatal NullCallable, ?st)"
    by (simp add: swift_generic_destroy_def handleRefCounts_def Let_def env0_def
          layoutStringHeaderSize_def numeral_2_eq_2 del: while_loop.simps)
  from r m t a c d show ?thesis by simp
qed

text \<open>
  Claim C9, as the spec states it, fails for take-initialisation: the layout string of
  \<open>heap4\<close> holds an entry of the reserved kind \<open>Custom\<close>, whose rows in both tables are
  null, and \<^verbatim>\<open>swift_generic_initWithTake\<close> walks over it and returns \<open>dest\<close>.
\<close>

theorem reserved_kind_in_take_counterexample:
  "null_row (destroyTable (objc_interop env0)) kind_Custom \<and>
   null_row (retainTable (objc_interop env0)) kind_Custom \<and>
   entry_tag (load64 (write_bytes heap4 0x2100 (read_bytes heap4 0x2000 16)) (0x1000 + 16)) = kind_Custom \<and>
   swift_generic_initWithTake 2 env0 0x2100 0x2000 0 \<lparr>heap = heap4, trace = []\<rparr> =
     (Returns 0x2100,
      \<lparr>heap = write_bytes heap4 0x2100 (read_bytes heap4 0x2000 16),
       trace = [Wr 0x2100 (read_bytes heap4 0x2000 16)]\<rparr>)"
proof -
  let ?es = "[Ref kind_Custom 0]"
  let ?st = "\<lparr>heap = heap4, trace = []\<rparr>"
  let ?st1 = "memcpy env0 0x2100 0x2000 (md_size env0 0) ?st"
  have r: "null_row (destroyTable (objc_interop env0)) kind_Custom"
    "null_row (retainTable (objc_interop env0)) kind_Custom"
    by (simp_all add: null_row_def env0_def destroyTable_def retainTable_def kind_defs)
  have t: "entry_tag (load64 (write_bytes heap4 0x2100 (read_bytes heap4 0x2000 16)) (0x1000 + 16)) = kind_Custom"
    by (simp add: heap4_copied_words entry_tag_def kind_defs)
  have h1: "heap ?st1 = write_bytes heap4 0x2100 (read_bytes heap4 0x2000 16)"
    by (simp add: memcpy_def env0_def)
  have n: "\<not> md_bitwiseTakable env0 0"
    by (simp add: env0_def)
  have m: "list_all take_handled ?es"
    by (simp add: kind_defs)
  have w: "words_at (heap ?st1) (md_layoutString env0 0 + layoutStringHeaderSize) (layout_words ?es 0)"
    unfolding h1
    by (simp add: env0_def layoutStringHeaderSize_def layout_words_def entry_word_def kind_defs
          heap4_copied_words)
  have f: "frame env0 (md_layoutString env0 0 + layoutStringHeaderSize)
      (8 * length (layout_words ?es 0))"
    by (rule frame_env0)
  from take_handler_loop [OF n m w f, where fuel = 2]
  have "swift_generic_initWithTake 2 env0 0x2100 0x2000 0 ?st =
     (Returns 0x2100,
      \<lparr>heap = write_bytes heap4 0x2100 (read_bytes heap4 0x2000 16),
       trace = [Wr 0x2100 (read_bytes heap4 0x2000 16)]\<rparr>)"
    by (simp add: Let_def memcpy_def env0_def kind_defs emit_def take_ref_calls_def)
  with r t show ?thesis by simp
qed

subsection \<open>The patch pass\<close>

lemma heap5_words:
  "load64 heap5 0x1010 = 0x1000000000000000" "load64 heap5 0x1018 = 0x2000000000000000"
  "load64 heap5 0x1028 = 0" "load64 heap5 0x1030 = 1" "load64 heap5 0x1048 = 0x0F00000000000000"
  "load64 heap5 0x1050 = 0x100" "load64 heap5 0x2000 = 0xAAA0"
  by (simp_all add: heap5_def heap_eval)

lemma heap6_words:
  "load64 heap6 0x1010 = 0x0F00000000000008" "load64 heap6 0x1018 = 0x100"
  by (simp_all add: heap6_def heap_eval)

lemma resolve_patches_plain_resilient:
  "swift_resolve_resilientAccessors 2 env0 0x1000 16 0x1000 16 0 \<lparr>heap = heap6, trace = []\<rparr> =
     (Returns (),
      \<lparr>heap = write_bytes (write_bytes heap6 0x1010 (bytes64 0x0C00000000000008))
                0x1018 (bytes64 0x4000),
       trace = [Call (MetadataAccessor 0x1118) [0x3000],
                Wr 0x1010 (bytes64 0x0C00000000000008), Wr 0x1018 (bytes64 0x4000)]\<rparr>)"
proof -
  let ?st = "\<lparr>heap = heap6, trace = []\<rparr>"
  have s1: "resolve_step env0 0x1000 16 0x1000 0 16 ?st =
      (32, \<lparr>heap = write_bytes (write_bytes heap6 0x1010 (bytes64 0x0C00000000000008))
                0x1018 (bytes64 0x4000),
            trace = [Call (MetadataAccessor 0x1118) [0x3000],
                Wr 0x1010 (bytes64 0x0C00000000000008), Wr 0x1018 (bytes64 0x4000)]\<rparr>)"
    using heap6_words
    by (simp add: resolve_step_def readBytes_def writeBytes_def Let_def entry_tag_def entry_skip_def
          kind_defs getResilientTypeMetadata_def emit_def env0_def layoutStringHeaderSize_def)
  have "resolve_loop (Suc (Suc 0)) env0 0x1000 16 0x1000 16 0 16 ?st =
      (Returns (),
      \<lparr>heap = write_bytes (write_bytes heap6 0x1010 (bytes64 0x0C00000000000008))
                0x1018 (bytes64 0x4000),
       trace = [Call (MetadataAccessor 0x1118) [0x3000],
                Wr 0x1010 (bytes64 0x0C00000000000008), Wr 0x1018 (bytes64 0x4000)]\<rparr>)"
    by (simp add: s1 layoutStringHeaderSize_def)
  then show ?thesis
    by (simp add: swift_resolve_resilientAccessors_def layoutStringHeaderSize_def numeral_2_eq_2)
qed

text \<open>
  Claim C8 fails on the code. \<^verbatim>\<open>swift_resolve_resilientAccessors\<close> steps 56 bytes
  further after the first word of a \<open>SinglePayloadEnumSimple\<close> entry, while the
  parameters of such an entry take 48 bytes: \<^verbatim>\<open>handleSinglePayloadEnumSimple\<close>, on the
  same entry with the payload present, leaves the cursor at offset 72, where the
  \<open>Resilient\<close> entry of the payload starts. The patch pass over these 72 bytes reads the
  word at offset 80 instead, takes the relative offset for an entry, and returns with the
  \<open>Resilient\<close> entry still in place: no accessor called, nothing written.
\<close>

theorem resolve_skips_resilient_behind_enum:
  "entry_tag (load64 heap5 (0x1000 + 16)) = kind_SinglePayloadEnumSimple \<and>
   entry_tag (load64 heap5 (0x1000 + 72)) = kind_Resilient \<and>
   handleSinglePayloadEnumSimple heap5 0x1000 24 0x2000 0 = Inr (True, 72, 0) \<and>
   swift_resolve_resilientAccessors 3 env0 0x1000 16 0x1000 72 0 \<lparr>heap = heap5, trace = []\<rparr> =
     (Returns (), \<lparr>heap = heap5, trace = []\<rparr>)"
proof -
  let ?st = "\<lparr>heap = heap5, trace = []\<rparr>"
  have t1: "entry_tag (load64 heap5 (0x1000 + 16)) = kind_SinglePayloadEnumSimple"
    and t2: "entry_tag (load64 heap5 (0x1000 + 72)) = kind_Resilient"
    by (simp_all add: heap5_words entry_tag_def kind_defs)
  have e: "handleSinglePayloadEnumSimple heap5 0x1000 24 0x2000 0 = Inr (True, 72, 0)"
    using heap5_words
    by (simp add: handleSinglePayloadEnumSimple_def enumExtraInhabitants_def readBytes_def Let_def
          extraTagBytesPattern_def xiTagBytesPattern_def xiTagBytesOffset_def readTagBytes_def)
  have s1: "resolve_step env0 0x1000 16 0x1000 0 16 ?st = (80, ?st)"
    using heap5_words
    by (simp add: resolve_step_def readBytes_def Let_def entry_tag_def kind_defs)
  have s2: "resolve_step env0 0x1000 16 0x1000 0 80 ?st = (88, ?st)"
    using heap5_words
    by (simp add: resolve_step_def readBytes_def Let_def entry_tag_def kind_defs)
  have "resolve_loop (Suc (Suc (Suc 0))) env0 0x1000 16 0x1000 72 0 16 ?st = (Returns (), ?st)"
    by (simp add: s1 s2 layoutStringHeaderSize_def)
  then have r: "swift_resolve_resilientAccessors 3 env0 0x1000 16 0x1000 72 0 ?st = (Returns (), ?st)"
    by (simp add: swift_resolve_resilientAccessors_def layoutStringHeaderSize_def numeral_3_eq_3)
  from t1 t2 e r show ?thesis by simp
qed

end
